theory Spec2Isabelle
  imports Main "HOL-Library.Sublist"
begin

section \<open>Python values used by the scraper\<close>

subsection \<open>Strings\<close>

text \<open>A Python \<open>str\<close> is a sequence of Unicode code points and \<open>len\<close> counts code
  points, so a string is a list of code-point numbers. The literals of the source that
  are not ASCII are written out as their code points.\<close>

type_synonym pystr = "nat list"

definition str :: "string \<Rightarrow> pystr" where
  "str s = map of_char s"

text \<open>The operator \<open>sub in s\<close> on strings: \<open>sub\<close> occurs in \<open>s\<close> as a contiguous run.\<close>

fun str_in :: "'a list \<Rightarrow> 'a list \<Rightarrow> bool" where
  "str_in sub [] = (sub = [])"
| "str_in sub (c # cs) = (prefix sub (c # cs) \<or> str_in sub cs)"

text \<open>\<open>str.isspace\<close> of a single code point (the Unicode white-space table of CPython),
  and \<open>str.strip()\<close>, which removes the white space at both ends.\<close>

definition py_isspace :: "nat \<Rightarrow> bool" where
  "py_isspace c = (c \<in> set [9, 10, 11, 12, 13, 28, 29, 30, 31, 32, 133, 160, 5760,
     8192, 8193, 8194, 8195, 8196, 8197, 8198, 8199, 8200, 8201, 8202,
     8232, 8233, 8239, 8287, 12288])"

definition strip :: "pystr \<Rightarrow> pystr" where
  "strip s = rev (dropWhile py_isspace (rev (dropWhile py_isspace s)))"

text \<open>\<open>str.replace(old, new)\<close>: every non-overlapping occurrence of \<open>old\<close>, scanning from
  the left, is replaced by \<open>new\<close>; an empty \<open>old\<close> matches before every character and at
  the end.\<close>

function scan_replace :: "'a list \<Rightarrow> 'a list \<Rightarrow> 'a list \<Rightarrow> 'a list" where
  "scan_replace old new [] = []"
| "scan_replace old new (c # cs) =
     (if old \<noteq> [] \<and> prefix old (c # cs)
      then new @ scan_replace old new (drop (length old) (c # cs))
      else c # scan_replace old new cs)"
  by pat_completeness auto
termination
  by (relation "measure (\<lambda>(old, new, s). length s)") (auto simp: neq_Nil_conv)

definition py_replace :: "'a list \<Rightarrow> 'a list \<Rightarrow> 'a list \<Rightarrow> 'a list" where
  "py_replace s old new =
     (if old = [] then new @ concat (map (\<lambda>c. c # new) s) else scan_replace old new s)"

text \<open>Truthiness of an optional string such as the result of \<open>os.getenv\<close>: \<open>None\<close> and
  the empty string are false.\<close>

fun truthy :: "pystr option \<Rightarrow> bool" where
  "truthy None = False"
| "truthy (Some s) = (s \<noteq> [])"

subsection \<open>Exceptions\<close>

text \<open>The exceptions that reach the handlers of the source, each with the text that
  \<open>str(e)\<close> gives. All three are subclasses of \<open>Exception\<close>; only the first is caught by
  \<open>except PlaywrightTimeoutError\<close>. \<open>UnboundLocalError\<close> is what reading a local
  variable that was never assigned raises.\<close>

datatype exc =
    PlaywrightTimeoutError pystr
  | Exception pystr
  | UnboundLocalError pystr

fun exc_text :: "exc \<Rightarrow> pystr" where
  "exc_text (PlaywrightTimeoutError t) = t"
| "exc_text (Exception t) = t"
| "exc_text (UnboundLocalError t) = t"

text \<open>Code that touches no state of the run is modelled in the plain exception monad:
  \<open>Inl e\<close> is \<open>raise e\<close>, \<open>Inr v\<close> is a normal result.\<close>

definition rbind :: "exc + 'a \<Rightarrow> ('a \<Rightarrow> exc + 'b) \<Rightarrow> exc + 'b" where
  "rbind m f = (case m of Inl e \<Rightarrow> Inl e | Inr v \<Rightarrow> f v)"

definition rseq :: "exc + unit \<Rightarrow> exc + 'b \<Rightarrow> exc + 'b" where
  "rseq m k = rbind m (\<lambda>_. k)"

definition rtry :: "exc + 'a \<Rightarrow> (exc \<Rightarrow> exc + 'a) \<Rightarrow> exc + 'a" where
  "rtry m h = (case m of Inl e \<Rightarrow> h e | Inr v \<Rightarrow> Inr v)"

text \<open>\<open>try: m  except: pass\<close>\<close>

definition rpass :: "exc + unit \<Rightarrow> exc + unit" where
  "rpass m = rtry m (\<lambda>_. Inr ())"

section \<open>extension.py\<close>

definition sad_captcha_key_line :: pystr where
  \<open>sad_captcha_key_line = str ''var apiKey = localStorage.getItem("sadCaptchaKey");''\<close>

definition update_js_contents :: "pystr \<Rightarrow> pystr \<Rightarrow> pystr" where
  \<open>update_js_contents content api_key =
     py_replace content sad_captcha_key_line (str ''var apiKey = "'' @ api_key @ str ''";'')\<close>

section \<open>main.py\<close>

subsection \<open>ProxyRotator\<close>

record proxy =
  server :: pystr
  username :: "pystr option"
  password :: "pystr option"

record ProxyRotator =
  proxies :: "proxy list"
  tried_proxies :: "pystr set"

text \<open>\<open>__init__\<close>: the pool read from the environment and an empty tried set. The pool
  is a parameter; \<open>_load_proxies_from_env\<close> only appends an entry whose server variable
  is set and non-empty.\<close>

definition ProxyRotator_init :: "proxy list \<Rightarrow> ProxyRotator" where
  "ProxyRotator_init pool = \<lparr>proxies = pool, tried_proxies = {}\<rparr>"

text \<open>\<open>random.choice(seq)\<close> returns \<open>seq[i]\<close> for a random index \<open>i\<close> below \<open>len(seq)\<close>. The
  random draw is an input \<open>r\<close>, reduced modulo the length, so that every element can be
  chosen and nothing else can.\<close>

definition random_choice :: "'a list \<Rightarrow> nat \<Rightarrow> 'a" where
  "random_choice xs r = xs ! (r mod length xs)"

definition get_random_proxy :: "ProxyRotator \<Rightarrow> nat \<Rightarrow> proxy option \<times> ProxyRotator" where
  "get_random_proxy self r =
     (if proxies self = [] then (None, self)
      else
        let self1 = (if card (tried_proxies self) \<ge> length (proxies self)
                     then self\<lparr>tried_proxies := {}\<rparr> else self);
            available_proxies = filter (\<lambda>p. server p \<notin> tried_proxies self1) (proxies self1);
            self2 = (if available_proxies = [] then self1\<lparr>tried_proxies := {}\<rparr> else self1);
            available_proxies2 = (if available_proxies = [] then proxies self1
                                  else available_proxies);
            proxy = random_choice available_proxies2 r
        in (Some proxy, self2\<lparr>tried_proxies := insert (server proxy) (tried_proxies self2)\<rparr>))"

text \<open>Consecutive calls on one rotator, one random draw per call; the results in call
  order and the rotator after the last call.\<close>

fun get_random_proxy_calls :: "ProxyRotator \<Rightarrow> nat list \<Rightarrow> proxy option list \<times> ProxyRotator" where
  "get_random_proxy_calls self [] = ([], self)"
| "get_random_proxy_calls self (r # rs) =
     (case get_random_proxy self r of
        (p, self') \<Rightarrow>
          (case get_random_proxy_calls self' rs of (ps, self'') \<Rightarrow> (p # ps, self'')))"

text \<open>A pool of two proxies, for the examples.\<close>

definition two_proxies :: "proxy list" where
  "two_proxies = [\<lparr>server = str ''http://p1:8000'', username = None, password = None\<rparr>,
                  \<lparr>server = str ''http://p2:8000'', username = Some (str ''u''), password = Some (str ''pw'')\<rparr>]"

subsection \<open>is_shopee_blocking\<close>

text \<open>What the detector reads from the page: \<open>page.url\<close>, the result of
  \<open>page.content()\<close>, the result of \<open>page.query_selector(selector)\<close> for each selector
  (whether an element came back, or the exception raised), and the status of
  \<open>page.last_response\<close> when that attribute holds a response.\<close>

record page_view =
  url :: pystr
  content :: "exc + pystr"
  query_selector :: "pystr \<Rightarrow> exc + bool"
  last_response :: "int option"

definition block_indicators :: "pystr list" where
  "block_indicators =
    [[39511, 35657, 36039, 35338, 22833, 25943],
     [25265, 27465, 65292, 25105, 20497, 28961, 27861, 39511, 35657, 36039, 35338, 65292,
      35531, 31245, 31561, 20006, 20877, 35430, 19968, 27425, 12290],
     [20877, 35430, 19968, 27425],
     [35531, 30331, 20837, 34662, 30382, 36092, 29289, 32, 65, 112, 112],
     [25265, 27465, 65292, 30446, 21069, 30332, 29983, 20102, 19968, 20123, 37679, 35492,
      12290, 35531, 19979, 36617, 20006, 30331, 20837, 34662, 30382, 36092, 29289, 32, 65,
      112, 112, 32, 20197, 32380, 32396, 20351, 29992, 12290],
     [30331, 20986]]"

definition google_button_selectors :: "pystr list" where
  \<open>google_button_selectors =
    [str ''button:has-text("Google")'',
     str ''.google-login'',
     str ''.social-white-google-png'',
     str ''.social-login svg[title="Google"]'',
     str ''div[aria-label="Continue with Google"]'',
     str ''img[alt*="Google"]'',
     str ''a[href*="accounts.google.com"]'']\<close>

text \<open>\<open>for text in texts: if text in page_content: ... break\<close>: whether the loop
  leaves through its \<open>if\<close>. The same loop shape serves the block indicators, the
  CAPTCHA error texts and the app-only error texts.\<close>

fun text_found :: "pystr list \<Rightarrow> pystr \<Rightarrow> bool" where
  "text_found [] page_content = False"
| "text_found (t # ts) page_content =
     (if str_in t page_content then True else text_found ts page_content)"

text \<open>The loop over the sign-in selectors: a query that raises is passed over by the
  bare \<open>except: pass\<close> inside the loop, and the loop goes on with the next selector.\<close>

fun found_expected_element :: "(pystr \<Rightarrow> exc + bool) \<Rightarrow> pystr list \<Rightarrow> bool" where
  "found_expected_element q [] = False"
| "found_expected_element q (selector # selectors) =
     (case q selector of
        Inr True \<Rightarrow> True
      | Inr False \<Rightarrow> found_expected_element q selectors
      | Inl e \<Rightarrow> found_expected_element q selectors)"

text \<open>The body of the outer \<open>try\<close>, then the function with its handler
  \<open>except Exception: return True\<close>.\<close>

definition is_shopee_blocking_try :: "page_view \<Rightarrow> exc + bool" where
  \<open>is_shopee_blocking_try page =
     (let current_url = url page in
      rbind (content page) (\<lambda>page_content.
        if length (strip page_content) < 100 \<and> str_in (str ''shopee'') current_url
        then Inr True
        else if text_found block_indicators page_content then Inr True
        else if \<not> found_expected_element (query_selector page) google_button_selectors
                \<and> str_in (str ''shopee'') current_url
        then Inr True
        else (case last_response page of
                Some status \<Rightarrow> if status \<ge> 400 then Inr True else Inr False
              | None \<Rightarrow> Inr False)))\<close>

definition is_shopee_blocking :: "page_view \<Rightarrow> exc + bool" where
  "is_shopee_blocking page = rtry (is_shopee_blocking_try page) (\<lambda>e. Inr True)"

text \<open>A page of 120 letters on the target domain on which the first selector query raises
  and the second finds the sign-in button.\<close>

definition page_query_fault :: page_view where
  \<open>page_query_fault =
     \<lparr>url = str ''https://shopee.tw/'',
      content = Inr (replicate 120 120),
      query_selector = (\<lambda>selector.
         if selector = str ''button:has-text("Google")'' then Inl (Exception (str ''Target closed''))
         else if selector = str ''.google-login'' then Inr True
         else Inr False),
      last_response = None\<rparr>\<close>

text \<open>A page whose content cannot be read.\<close>

definition page_content_fault :: page_view where
  \<open>page_content_fault =
     \<lparr>url = str ''https://shopee.tw/'',
      content = Inl (Exception (str ''Execution context was destroyed'')),
      query_selector = (\<lambda>selector. Inr True),
      last_response = Some 200\<rparr>\<close>

text \<open>A long page off the target domain, with the sign-in button and status 200, that
  shows the text of the last block indicator.\<close>

definition page_with_indicator :: page_view where
  \<open>page_with_indicator =
     \<lparr>url = str ''https://example.org/'',
      content = Inr (replicate 150 120 @ [30331, 20986] @ replicate 150 120),
      query_selector = (\<lambda>selector. Inr True),
      last_response = Some 200\<rparr>\<close>

subsection \<open>handle_google_login_process\<close>

text \<open>The calls on the popup page, by call site. Each \<open>await\<close> of the source either
  returns or raises; what it does is an input. Calls inside a loop carry the position in
  the loop: the index of the character typed, or the selector tried.\<close>

datatype login_step =
    LoadWait
  | ManualWait
  | EmailSelectorWait
  | EmailClick
  | EmailType nat
  | EmailTypeWait nat
  | BeforeNextWait
  | NextClick pystr
  | PasswordFieldWait
  | PasswordClick
  | PasswordType nat
  | PasswordTypeWait nat
  | BeforePasswordNextWait
  | PasswordNextClick pystr
  | ConsentWait
  | AfterConsentWait
  | ConsentErrorScreenshot
  | LoginErrorScreenshot

datatype login_query =
    NextCount pystr
  | PasswordFieldCount pystr
  | PasswordNextCount pystr

text \<open>\<open>GOOGLE_EMAIL\<close> and \<open>GOOGLE_PASSWORD\<close> are read from the environment when the module
  is loaded; \<open>os.getenv\<close> gives \<open>None\<close> for a variable that is not set.\<close>

record login_env =
  GOOGLE_EMAIL :: "pystr option"
  GOOGLE_PASSWORD :: "pystr option"
  login_step :: "login_step \<Rightarrow> exc + unit"
  login_count :: "login_query \<Rightarrow> exc + nat"
  consent_evaluate :: "exc + bool"

definition next_button_selectors :: "pystr list" where
  \<open>next_button_selectors =
    [str ''div[id="identifierNext"]'',
     str ''button:has-text("Next")'',
     str ''//div[contains(text(), "Next")]'']\<close>

definition password_selectors :: "pystr list" where
  \<open>password_selectors =
    [str ''input[type="password"][name="password"]'',
     str ''input[aria-label="Enter your password"]'',
     str ''input[type="password"]'']\<close>

definition password_next_selectors :: "pystr list" where
  \<open>password_next_selectors =
    [str ''div[id="passwordNext"]'',
     str ''button:has-text("Next")'',
     str ''//div[contains(text(), "Next")]'']\<close>

text \<open>The function is modelled together with the calls it makes on the popup, in the
  order in which it makes them: a computation is its outcome (\<open>Inl e\<close> is \<open>raise e\<close>) and
  the list of its calls.\<close>

datatype login_call =
    Did login_step
  | Asked login_query
  | Evaluated_consent_script

type_synonym 'a popup = "(exc + 'a) \<times> login_call list"

definition lret :: "'a \<Rightarrow> 'a popup" where
  "lret v = (Inr v, [])"

definition lbind :: "'a popup \<Rightarrow> ('a \<Rightarrow> 'b popup) \<Rightarrow> 'b popup" where
  "lbind m f =
     (case m of
        (Inl e, calls) \<Rightarrow> (Inl e, calls)
      | (Inr v, calls) \<Rightarrow> (case f v of (r, calls') \<Rightarrow> (r, calls @ calls')))"

definition lseq :: "unit popup \<Rightarrow> 'b popup \<Rightarrow> 'b popup" where
  "lseq m k = lbind m (\<lambda>_. k)"

text \<open>\<open>try: m  except Exception as e: h e\<close>, and \<open>try: m  except: pass\<close>.\<close>

definition ltry :: "'a popup \<Rightarrow> (exc \<Rightarrow> 'a popup) \<Rightarrow> 'a popup" where
  "ltry m h =
     (case m of
        (Inl e, calls) \<Rightarrow> (case h e of (r, calls') \<Rightarrow> (r, calls @ calls'))
      | (Inr v, calls) \<Rightarrow> (Inr v, calls))"

definition lpass :: "unit popup \<Rightarrow> unit popup" where
  "lpass m = ltry m (\<lambda>e. lret ())"

text \<open>The three kinds of call: an action or wait, a \<open>count()\<close> of a locator, and the
  \<open>evaluate\<close> of the consent script.\<close>

definition do_step :: "login_env \<Rightarrow> login_step \<Rightarrow> unit popup" where
  "do_step env s = (login_step env s, [Did s])"

definition ask_count :: "login_env \<Rightarrow> login_query \<Rightarrow> nat popup" where
  "ask_count env q = (login_count env q, [Asked q])"

definition evaluate_consent :: "login_env \<Rightarrow> bool popup" where
  "evaluate_consent env = (consent_evaluate env, [Evaluated_consent_script])"

text \<open>\<open>for char in text: await field.type(char, ...); await popup_page.wait_for_timeout(...)\<close>,
  from character \<open>i\<close> on.\<close>

fun type_chars ::
  "login_env \<Rightarrow> (nat \<Rightarrow> login_step) \<Rightarrow> (nat \<Rightarrow> login_step) \<Rightarrow> nat \<Rightarrow> pystr \<Rightarrow> unit popup" where
  "type_chars env typ wait i [] = lret ()"
| "type_chars env typ wait i (char # chars) =
     lseq (do_step env (typ i)) (lseq (do_step env (wait i)) (type_chars env typ wait (Suc i) chars))"

text \<open>The loops that click a Next button: the first selector that matches is clicked and
  ends the loop; an exception from \<open>count\<close> or \<open>click\<close> is printed by the handler inside
  the loop, which then goes on with the next selector.\<close>

fun click_first ::
  "login_env \<Rightarrow> (pystr \<Rightarrow> login_query) \<Rightarrow> (pystr \<Rightarrow> login_step) \<Rightarrow> pystr list \<Rightarrow> unit popup" where
  "click_first env count click [] = lret ()"
| "click_first env count click (selector # selectors) =
     lbind
       (ltry (lbind (ask_count env (count selector))
                (\<lambda>n. if n > 0 then lseq (do_step env (click selector)) (lret True)
                      else lret False))
             (\<lambda>e. lret False))
       (\<lambda>break. if break then lret () else click_first env count click selectors)"

text \<open>The loop that looks for the password field has no handler of its own: the first
  selector with a positive count is kept, and an exception from \<open>count\<close> leaves the loop.\<close>

fun find_password_field :: "login_env \<Rightarrow> pystr list \<Rightarrow> pystr option popup" where
  "find_password_field env [] = lret None"
| "find_password_field env (selector # selectors) =
     lbind (ask_count env (PasswordFieldCount selector))
       (\<lambda>n. if n > 0 then lret (Some selector) else find_password_field env selectors)"

text \<open>The same loop shape in \<open>main\<close>, where it looks for the sign-in button.\<close>

fun first_field :: "(pystr \<Rightarrow> exc + nat) \<Rightarrow> pystr list \<Rightarrow> exc + pystr option" where
  "first_field count [] = Inr None"
| "first_field count (selector # selectors) =
     rbind (count selector) (\<lambda>n. if n > 0 then Inr (Some selector)
                                  else first_field count selectors)"

text \<open>The consent screen: the innermost \<open>try\<close> with its handler, which takes a screenshot
  under a bare \<open>except: pass\<close> and still returns \<open>True\<close>.\<close>

definition consent_handling :: "login_env \<Rightarrow> bool popup" where
  "consent_handling env =
     ltry
       (lbind (evaluate_consent env) (\<lambda>clicked.
        lseq (do_step env AfterConsentWait) (lret True)))
       (\<lambda>consent_error. lseq (lpass (do_step env ConsentErrorScreenshot)) (lret True))"

text \<open>The password \<open>try\<close> with its handler \<open>except Exception: return False\<close>. The branch
  without a password field returns \<open>False\<close>; the other branch runs on to the consent
  screen.\<close>

definition password_entry :: "login_env \<Rightarrow> bool popup" where
  "password_entry env =
     ltry
       (lbind (find_password_field env password_selectors)
          (\<lambda>password_field.
             case password_field of
               None \<Rightarrow> lret False
             | Some field \<Rightarrow>
                 lseq (do_step env PasswordClick)
                 (lseq (type_chars env PasswordType PasswordTypeWait 0
                          (case GOOGLE_PASSWORD env of Some p \<Rightarrow> p | None \<Rightarrow> []))
                 (lseq (do_step env BeforePasswordNextWait)
                 (lseq (click_first env PasswordNextCount PasswordNextClick
                          password_next_selectors)
                 (lseq (do_step env ConsentWait)
                       (consent_handling env)))))))
       (\<lambda>e. lret False)"

text \<open>The email \<open>try\<close> with its handler \<open>except Exception: return False\<close>.\<close>

definition email_entry :: "login_env \<Rightarrow> bool popup" where
  "email_entry env =
     ltry
       (lseq (do_step env EmailSelectorWait)
       (lseq (do_step env EmailClick)
       (lseq (type_chars env EmailType EmailTypeWait 0
                (case GOOGLE_EMAIL env of Some e \<Rightarrow> e | None \<Rightarrow> []))
       (lseq (do_step env BeforeNextWait)
       (lseq (click_first env NextCount NextClick next_button_selectors)
       (lseq (do_step env PasswordFieldWait)
             (password_entry env)))))))
       (\<lambda>e. lret False)"

text \<open>The whole function with the calls it makes: the outer \<open>try\<close>, whose handler takes a
  screenshot under a bare \<open>except: pass\<close> and returns \<open>False\<close>.\<close>

definition handle_google_login_process_calls :: "login_env \<Rightarrow> bool popup" where
  "handle_google_login_process_calls env =
     ltry
       (lseq (do_step env LoadWait)
          (if \<not> truthy (GOOGLE_EMAIL env) \<or> \<not> truthy (GOOGLE_PASSWORD env)
           then lseq (do_step env ManualWait) (lret False)
           else email_entry env))
       (\<lambda>e. lseq (lpass (do_step env LoginErrorScreenshot)) (lret False))"

text \<open>What the caller gets from the function: its return value or its exception.\<close>

definition handle_google_login_process :: "login_env \<Rightarrow> exc + bool" where
  "handle_google_login_process env = fst (handle_google_login_process_calls env)"

text \<open>Two conditions on the outside world of a login. All characters of a text are typed:
  every \<open>type\<close> and the wait after it return. A password field is found: some selector of
  the list has a positive count and no \<open>count\<close> before it raises.\<close>

definition typed_all :: "login_env \<Rightarrow> (nat \<Rightarrow> login_step) \<Rightarrow> (nat \<Rightarrow> login_step) \<Rightarrow> pystr \<Rightarrow> bool" where
  "typed_all env typ wait text =
     list_all (\<lambda>i. login_step env (typ i) = Inr () \<and> login_step env (wait i) = Inr ())
       [0..<length text]"

fun password_field_found :: "login_env \<Rightarrow> pystr list \<Rightarrow> bool" where
  "password_field_found env [] = False"
| "password_field_found env (selector # selectors) =
     (case login_count env (PasswordFieldCount selector) of
        Inl e \<Rightarrow> False
      | Inr n \<Rightarrow> n > 0 \<or> password_field_found env selectors)"

text \<open>The credentials are entered: both are configured, and every call from the first
  wait to the wait for the consent screen returns, apart from the calls inside the two
  loops that click a Next button, which do not matter.\<close>

definition credentials_entered :: "login_env \<Rightarrow> bool" where
  "credentials_entered env =
     (truthy (GOOGLE_EMAIL env) \<and> truthy (GOOGLE_PASSWORD env) \<and>
      login_step env LoadWait = Inr () \<and>
      login_step env EmailSelectorWait = Inr () \<and>
      login_step env EmailClick = Inr () \<and>
      typed_all env EmailType EmailTypeWait
        (case GOOGLE_EMAIL env of Some e \<Rightarrow> e | None \<Rightarrow> []) \<and>
      login_step env BeforeNextWait = Inr () \<and>
      login_step env PasswordFieldWait = Inr () \<and>
      password_field_found env password_selectors \<and>
      login_step env PasswordClick = Inr () \<and>
      typed_all env PasswordType PasswordTypeWait
        (case GOOGLE_PASSWORD env of Some p \<Rightarrow> p | None \<Rightarrow> []) \<and>
      login_step env BeforePasswordNextWait = Inr () \<and>
      login_step env ConsentWait = Inr ())"

text \<open>A login in which every call returns, the first password selector matches and no
  Next button is found by \<open>count\<close>; and the same popup with no credentials configured.\<close>

definition login_ok :: login_env where
  \<open>login_ok =
     \<lparr>GOOGLE_EMAIL = Some (str ''a@b.c''),
      GOOGLE_PASSWORD = Some (str ''pw''),
      login_step = (\<lambda>s. Inr ()),
      login_count = (\<lambda>q. case q of PasswordFieldCount s \<Rightarrow> Inr 1 | _ \<Rightarrow> Inr 0),
      consent_evaluate = Inr False\<rparr>\<close>

definition login_no_credentials :: login_env where
  "login_no_credentials = login_ok\<lparr>GOOGLE_EMAIL := None, GOOGLE_PASSWORD := None\<rparr>"

text \<open>The login that succeeds, except that the consent script and both clicks on a Next
  button raise.\<close>

definition login_consent_raises :: login_env where
  \<open>login_consent_raises =
     login_ok\<lparr>login_step := (\<lambda>s. case s of
                      NextClick selector \<Rightarrow> Inl (Exception (str ''Element is not attached''))
                    | PasswordNextClick selector \<Rightarrow> Inl (Exception (str ''Element is not attached''))
                    | _ \<Rightarrow> Inr ()),
               login_count := (\<lambda>q. Inr 1),
               consent_evaluate := Inl (Exception (str ''Execution context was destroyed''))\<rparr>\<close>

text \<open>A popup on which every call raises.\<close>

definition login_all_raise :: login_env where
  \<open>login_all_raise =
     \<lparr>GOOGLE_EMAIL = Some (str ''a@b.c''),
      GOOGLE_PASSWORD = Some (str ''pw''),
      login_step = (\<lambda>s. Inl (PlaywrightTimeoutError (str ''Timeout 10000ms exceeded.''))),
      login_count = (\<lambda>q. Inl (Exception (str ''Target closed''))),
      consent_evaluate = Inl (Exception (str ''Target closed''))\<rparr>\<close>

subsection \<open>The state of a run of main\<close>

text \<open>A browser session is named by the number of the attempt that launched it. The run
  records, in order, every session opened by \<open>launch_persistent_context\<close> and every
  session closed by \<open>browser.close()\<close>.\<close>

datatype session_event = Opened nat | Closed nat

text \<open>The lines that \<open>main\<close> prints when it classifies an attempt.\<close>

datatype message =
    Shopee_is_blocking        \<comment> \<open>Shopee is blocking this proxy, switching to next...\<close>
  | Google_button_not_found   \<comment> \<open>Google login button not found on current page\<close>
  | Captcha_failed            \<comment> \<open>Captcha failed - received error page\<close>
  | Captcha_solved            \<comment> \<open>Captcha solved successfully, proceeding to product page\<close>
  | App_only_error            \<comment> \<open>Login failed - received app-only error page\<close>
  | Blank_page                \<comment> \<open>Login failed - received blank or nearly blank page\<close>
  | Login_process_error       \<comment> \<open>Error during Google login process: ...\<close>
  | Login_completed           \<comment> \<open>Google login process completed successfully\<close>
  | Login_failed              \<comment> \<open>Google login failed, trying another proxy...\<close>
  | Timeout_occurred          \<comment> \<open>Timeout occurred, switching to next proxy...\<close>
  | Error_with_proxy          \<comment> \<open>Error with current proxy: ...\<close>

text \<open>The state that the body of the loop changes: the two logs, and the local variables
  \<open>browser\<close> (\<open>None\<close> while it has never been assigned) and \<open>success\<close> of \<open>main\<close>.\<close>

record world =
  sessions :: "session_event list"
  printed :: "message list"
  browser :: "nat option"
  success :: bool

definition initial_world :: world where
  "initial_world = \<lparr>sessions = [], printed = [], browser = None, success = False\<rparr>"

text \<open>The sessions that are open after a sequence of events, oldest first, starting
  from the sessions \<open>live\<close>. Closing a session that is not open changes nothing.\<close>

fun track_sessions :: "nat list \<Rightarrow> session_event list \<Rightarrow> nat list" where
  "track_sessions live [] = live"
| "track_sessions live (Opened n # evs) = track_sessions (live @ [n]) evs"
| "track_sessions live (Closed n # evs) = track_sessions (removeAll n live) evs"

definition open_sessions :: "session_event list \<Rightarrow> nat list" where
  "open_sessions evs = track_sessions [] evs"

text \<open>A statement of the loop body either completes, raises, or executes \<open>continue\<close>;
  the state changes made before an exception or a \<open>continue\<close> stay.\<close>

datatype signal = Raise exc | Continue

type_synonym 'a prog = "world \<Rightarrow> (signal + 'a) \<times> world"

definition pret :: "'a \<Rightarrow> 'a prog" where
  "pret v = (\<lambda>w. (Inr v, w))"

definition pcontinue :: "'a prog" where
  "pcontinue = (\<lambda>w. (Inl Continue, w))"

definition pbind :: "'a prog \<Rightarrow> ('a \<Rightarrow> 'b prog) \<Rightarrow> 'b prog" where
  "pbind m f = (\<lambda>w. case m w of (Inl s, w') \<Rightarrow> (Inl s, w') | (Inr v, w') \<Rightarrow> f v w')"

definition pseq :: "unit prog \<Rightarrow> 'b prog \<Rightarrow> 'b prog" where
  "pseq m k = pbind m (\<lambda>_. k)"

text \<open>\<open>await\<close> of a call whose outcome is an input.\<close>

definition await :: "exc + 'a \<Rightarrow> 'a prog" where
  "await r = (\<lambda>w. (case r of Inl e \<Rightarrow> Inl (Raise e) | Inr v \<Rightarrow> Inr v, w))"

text \<open>\<open>try: m  except Exception as e: h e\<close>. A \<open>continue\<close> inside the \<open>try\<close> is not an
  exception and leaves the statement.\<close>

definition ptry :: "'a prog \<Rightarrow> (exc \<Rightarrow> 'a prog) \<Rightarrow> 'a prog" where
  "ptry m h = (\<lambda>w. case m w of (Inl (Raise e), w') \<Rightarrow> h e w' | r \<Rightarrow> r)"

text \<open>\<open>try: m  except: pass\<close>, also with a handler that only prints.\<close>

definition ppass :: "unit prog \<Rightarrow> unit prog" where
  "ppass m = ptry m (\<lambda>e. pret ())"

definition say :: "message \<Rightarrow> unit prog" where
  "say msg = (\<lambda>w. (Inr (), w\<lparr>printed := printed w @ [msg]\<rparr>))"

definition record_event :: "session_event \<Rightarrow> unit prog" where
  "record_event ev = (\<lambda>w. (Inr (), w\<lparr>sessions := sessions w @ [ev]\<rparr>))"

definition assign_browser :: "nat \<Rightarrow> unit prog" where
  "assign_browser h = (\<lambda>w. (Inr (), w\<lparr>browser := Some h\<rparr>))"

definition assign_success :: "bool \<Rightarrow> unit prog" where
  "assign_success b = (\<lambda>w. (Inr (), w\<lparr>success := b\<rparr>))"

subsection \<open>One attempt\<close>

text \<open>The calls of one attempt on the browser, the page and the file system, by call
  site.\<close>

datatype step =
    Goto
  | StabilizeWait
  | LanguageClick
  | LanguageWait
  | HumanDelay
  | PreClickDelay
  | ExpectPopup
  | RedirectWait
  | WriteCaptchaSuccess
  | CaptchaWait
  | WriteCaptchaError
  | ScreenshotCaptchaError
  | ProductPageWait
  | ScrapeProduct
  | WriteAppError
  | WriteBlankPage
  | ScreenshotLoginError
  | SaveSuccessInfo
  | KeepOpenWait
  | ScreenshotTimeout
  | ScreenshotError
  | CloseBlocked
  | CloseNoButton
  | CloseCaptchaError
  | CloseAppError
  | CloseBlankPage
  | CloseLoginError
  | CloseEnd
  | CloseTimeout
  | CloseError

text \<open>What the outside world does in one attempt. \<open>launch_persistent_context\<close> is the
  call that opens the session; \<open>page_setup\<close> is the rest of
  \<open>launch_browser_with_proxy\<close> (\<open>new_page\<close>, \<open>add_init_script\<close>, \<open>stealth_async\<close>), which
  runs once the session is open. \<open>locator_count\<close> is \<open>page.locator(selector).count()\<close>.\<close>

record attempt_env =
  launch_persistent_context :: "exc + unit"
  page_setup :: "exc + unit"
  step :: "step \<Rightarrow> exc + unit"
  locator_count :: "pystr \<Rightarrow> exc + nat"
  blocking_page :: page_view
  login :: login_env
  content_after_login :: "exc + pystr"
  content_after_captcha :: "exc + pystr"

definition language_selector :: pystr where
  \<open>language_selector = str ''button:has-text("'' @ [32321, 39636, 20013, 25991] @ str ''")''\<close>

definition captcha_selectors :: "pystr list" where
  \<open>captcha_selectors = [str ''div[id="New Captcha"]'', str ''div[id="captchaMask"]'']\<close>

definition captcha_error_texts :: "pystr list" where
  \<open>captcha_error_texts =
    [[38913, 38754, 28961, 27861, 39023, 31034],
     [30332, 29983, 37679, 35492, 65281, 35531, 36820, 22238, 20877, 35430, 19968, 27425,
      25110, 22238, 21040, 20027, 38913],
     str ''Page cannot be displayed'',
     str ''An error occurred! Please go back and try again or return to the homepage'',
     [39511, 35657, 36039, 35338, 22833, 25943],
     [25265, 27465, 65292, 30446, 21069, 30332, 29983, 20102, 19968, 20123, 37679, 35492,
      12290, 35531, 19979, 36617, 20006, 30331, 20837, 34662, 30382, 36092, 29289, 32, 65,
      112, 112, 32, 20197, 32380, 32396, 20351, 29992, 12290],
     [30331, 20986]]\<close>

definition app_only_error_texts :: "pystr list" where
  \<open>app_only_error_texts =
    [str ''Please log in to Shopee Shopping App'',
     str ''Sorry, some errors have occurred'',
     [35531, 30331, 20837, 34662, 30382, 36092, 29289, 32, 65, 112, 112],
     [25265, 27465, 65292, 30446, 21069, 30332, 29983, 20102, 19968, 20123, 37679, 35492]]\<close>

text \<open>\<open>launch_browser_with_proxy\<close>, called in attempt \<open>n\<close>: it returns the handle of the
  new session; an exception after \<open>launch_persistent_context\<close> has returned leaves the
  function with the session open.\<close>

definition launch_browser_with_proxy :: "attempt_env \<Rightarrow> nat \<Rightarrow> nat prog" where
  "launch_browser_with_proxy env n =
     pseq (await (launch_persistent_context env))
    (pseq (record_event (Opened n))
    (pseq (await (page_setup env))
          (pret n)))"

text \<open>\<open>await browser.close()\<close> at a call site: reading the variable \<open>browser\<close> raises when
  it was never assigned; otherwise the session it names is closed, unless the call
  raises.\<close>

definition browser_close :: "attempt_env \<Rightarrow> step \<Rightarrow> unit prog" where
  "browser_close env site =
     (\<lambda>w. case browser w of
        None \<Rightarrow> (Inl (Raise (UnboundLocalError
                   (str ''cannot access local variable browser where it is not associated with a value''))), w)
      | Some h \<Rightarrow> pseq (await (step env site)) (record_event (Closed h)) w)"

text \<open>The loop over the CAPTCHA selectors; an exception from \<open>count\<close> is passed over.\<close>

fun captcha_found :: "(pystr \<Rightarrow> exc + nat) \<Rightarrow> pystr list \<Rightarrow> bool" where
  "captcha_found count [] = False"
| "captcha_found count (selector # selectors) =
     (case count selector of
        Inr n \<Rightarrow> if n > 0 then True else captcha_found count selectors
      | Inl e \<Rightarrow> captcha_found count selectors)"

text \<open>The branch \<open>if captcha_found:\<close>, the CAPTCHA wait: one wait of four minutes, then the
  content is read again and searched for the error texts. It returns the new value of
  \<open>page_content\<close>. The scraping block is under \<open>except Exception\<close> and cannot leave
  it.\<close>

definition captcha_wait :: "attempt_env \<Rightarrow> pystr prog" where
  "captcha_wait env =
     pseq (await (step env WriteCaptchaSuccess))
    (pseq (await (step env CaptchaWait))
    (pbind (await (content_after_captcha env)) (\<lambda>page_content.
       if text_found captcha_error_texts page_content
       then pseq (say Captcha_failed)
           (pseq (await (step env WriteCaptchaError))
           (pseq (await (step env ScreenshotCaptchaError))
           (pseq (browser_close env CloseCaptchaError)
                 pcontinue)))
       else pseq (say Captcha_solved)
           (pseq (await (step env ProductPageWait))
           (pseq (ppass (await (step env ScrapeProduct)))
                 (pret page_content))))))"

text \<open>The branch \<open>if login_popup_success:\<close>. It returns the value of \<open>login_success\<close>, which
  is set to \<open>True\<close> in the CAPTCHA branch only.\<close>

definition post_login_checks :: "attempt_env \<Rightarrow> bool prog" where
  "post_login_checks env =
     pseq (await (step env RedirectWait))
    (pbind (await (content_after_login env)) (\<lambda>page_content.
     pbind (if captcha_found (locator_count env) captcha_selectors
            then pbind (captcha_wait env) (\<lambda>page_content. pret (True, page_content))
            else pret (False, page_content))
       (\<lambda>(login_success, page_content).
          if text_found app_only_error_texts page_content
          then pseq (say App_only_error)
              (pseq (await (step env WriteAppError))
              (pseq (browser_close env CloseAppError)
                    pcontinue))
          else if length (strip page_content) < 200
          then pseq (say Blank_page)
              (pseq (await (step env WriteBlankPage))
              (pseq (browser_close env CloseBlankPage)
                    pcontinue))
          else pret login_success)))"

text \<open>The \<open>try\<close> around the popup, with its handler; the value is \<open>login_success\<close>.\<close>

definition google_login :: "attempt_env \<Rightarrow> bool prog" where
  "google_login env =
     ptry
       (pseq (await (step env PreClickDelay))
       (pseq (await (step env ExpectPopup))
       (pbind (await (handle_google_login_process (login env))) (\<lambda>login_popup_success.
          if login_popup_success then post_login_checks env else pret False))))
       (\<lambda>e. pseq (say Login_process_error)
            (pseq (await (step env ScreenshotLoginError))
            (pseq (browser_close env CloseLoginError)
                  pcontinue)))"

definition language_selection :: "attempt_env \<Rightarrow> unit prog" where
  "language_selection env =
     ppass (pbind (await (locator_count env language_selector)) (\<lambda>n.
              if n > 0 then pseq (await (step env LanguageClick)) (await (step env LanguageWait))
              else pret ()))"

text \<open>The end of the body: what follows the \<open>try\<close> around the popup.\<close>

definition attempt_end :: "attempt_env \<Rightarrow> bool \<Rightarrow> unit prog" where
  "attempt_end env login_success =
     pseq (if login_success
           then pseq (say Login_completed)
               (pseq (ppass (await (step env SaveSuccessInfo)))
               (pseq (assign_success True)
                     (await (step env KeepOpenWait))))
           else say Login_failed)
          (browser_close env CloseEnd)"

text \<open>The body of the outer \<open>try\<close> of attempt \<open>n\<close>. The loop that looks for the sign-in
  button has the shape of \<open>first_field\<close>: no handler of its own, the first selector with a
  positive count is kept.\<close>

definition attempt_try :: "attempt_env \<Rightarrow> nat \<Rightarrow> unit prog" where
  "attempt_try env n =
     pbind (launch_browser_with_proxy env n) (\<lambda>h.
     pseq (assign_browser h)
    (pseq (await (step env Goto))
    (pseq (await (step env StabilizeWait))
    (pbind (await (is_shopee_blocking (blocking_page env))) (\<lambda>blocked.
       if blocked
       then pseq (say Shopee_is_blocking) (pseq (browser_close env CloseBlocked) pcontinue)
       else
         pseq (language_selection env)
        (pseq (await (step env HumanDelay))
        (pbind (await (first_field (locator_count env) google_button_selectors))
           (\<lambda>google_button.
              case google_button of
                None \<Rightarrow> pseq (say Google_button_not_found)
                             (pseq (browser_close env CloseNoButton) pcontinue)
              | Some button \<Rightarrow>
                  pbind (google_login env) (attempt_end env)))))))))"

text \<open>The \<open>try\<close> statement of attempt \<open>n\<close> with its two handlers. The screenshot in each
  handler is under a bare \<open>except: pass\<close>.\<close>

definition attempt :: "attempt_env \<Rightarrow> nat \<Rightarrow> unit prog" where
  "attempt env n =
     ptry (attempt_try env n)
       (\<lambda>e. case e of
          PlaywrightTimeoutError t \<Rightarrow>
            pseq (say Timeout_occurred)
           (pseq (ppass (await (step env ScreenshotTimeout)))
                 (browser_close env CloseTimeout))
        | Exception t \<Rightarrow>
            pseq (say Error_with_proxy)
           (pseq (ppass (await (step env ScreenshotError)))
                 (browser_close env CloseError))
        | UnboundLocalError t \<Rightarrow>
            pseq (say Error_with_proxy)
           (pseq (ppass (await (step env ScreenshotError)))
                 (browser_close env CloseError)))"

subsection \<open>The attempt loop and main\<close>

definition max_attempts_before_break :: nat where
  "max_attempts_before_break = 10"

text \<open>The \<open>while\<close> loop. The outside world of attempt \<open>n\<close> may depend on the proxy in use;
  \<open>rnd k\<close> is the random draw of the call of \<open>get_random_proxy\<close> made after \<open>k\<close> attempts.
  The result is the exception that left the loop, if any, with the final values of
  \<open>attempts\<close>, the rotator and the state.\<close>

function attempt_loop ::
  "(nat \<Rightarrow> proxy \<Rightarrow> attempt_env) \<Rightarrow> (nat \<Rightarrow> nat) \<Rightarrow> nat \<Rightarrow> ProxyRotator \<Rightarrow> world
     \<Rightarrow> exc option \<times> nat \<times> ProxyRotator \<times> world" where
  "attempt_loop envs rnd attempts proxy_rotator w =
     (if \<not> success w \<and> attempts < max_attempts_before_break
      then
        (case get_random_proxy proxy_rotator (rnd attempts) of
           (None, rotator') \<Rightarrow>
             (Some (Exception (str ''NoneType object is not subscriptable'')),
              attempts + 1, rotator', w)
         | (Some proxy_config, rotator') \<Rightarrow>
             (case attempt (envs (attempts + 1) proxy_config) (attempts + 1) w of
                (Inl (Raise e), w') \<Rightarrow> (Some e, attempts + 1, rotator', w')
              | (Inl Continue, w') \<Rightarrow> attempt_loop envs rnd (attempts + 1) rotator' w'
              | (Inr u, w') \<Rightarrow> attempt_loop envs rnd (attempts + 1) rotator' w'))
      else (None, attempts, proxy_rotator, w))"
  by pat_completeness auto
termination
  by (relation "measure (\<lambda>(envs, rnd, attempts, proxy_rotator, w).
                  max_attempts_before_break - attempts)") auto

declare attempt_loop.simps [simp del]

text \<open>What \<open>main\<close> prints last.\<close>

datatype report =
    No_proxies_found
  | Successfully_accessed nat
  | Failed_to_access nat
  | Critical_error exc

record main_result =
  report :: report
  attempts :: nat
  final_world :: world

text \<open>\<open>main\<close>: \<open>pool\<close> is the list of proxies found in the environment, \<open>startup\<close> the
  loading of the extension and the start of Playwright before the loop.\<close>

definition main ::
  "proxy list \<Rightarrow> exc + unit \<Rightarrow> (nat \<Rightarrow> proxy \<Rightarrow> attempt_env) \<Rightarrow> (nat \<Rightarrow> nat) \<Rightarrow> main_result" where
  "main pool startup envs rnd =
     (let proxy_rotator = ProxyRotator_init pool in
      if proxies proxy_rotator = []
      then \<lparr>report = No_proxies_found, attempts = 0, final_world = initial_world\<rparr>
      else
        (case startup of
           Inl e \<Rightarrow> \<lparr>report = Critical_error e, attempts = 0, final_world = initial_world\<rparr>
         | Inr u \<Rightarrow>
             (case attempt_loop envs rnd 0 proxy_rotator initial_world of
                (Some e, n, rotator', w) \<Rightarrow>
                  \<lparr>report = Critical_error e, attempts = n, final_world = w\<rparr>
              | (None, n, rotator', w) \<Rightarrow>
                  \<lparr>report = (if success w then Successfully_accessed n else Failed_to_access n),
                   attempts = n, final_world = w\<rparr>)))"

subsection \<open>Example attempts\<close>

text \<open>A page of the target domain with 300 letters, the sign-in button and no recorded
  response: not blocked.\<close>

definition page_clear :: page_view where
  \<open>page_clear =
     \<lparr>url = str ''https://shopee.tw/'',
      content = Inr (replicate 300 120),
      query_selector = (\<lambda>selector. Inr True),
      last_response = None\<rparr>\<close>

text \<open>An attempt in which every call returns, the page is not blocked, the first sign-in
  selector matches, the login succeeds, the page after the login has 300 letters and no
  CAPTCHA element.\<close>

definition env_no_captcha :: attempt_env where
  \<open>env_no_captcha =
     \<lparr>launch_persistent_context = Inr (),
      page_setup = Inr (),
      step = (\<lambda>s. Inr ()),
      locator_count = (\<lambda>selector. if selector = str ''button:has-text("Google")'' then Inr 1
                                    else Inr 0),
      blocking_page = page_clear,
      login = login_ok,
      content_after_login = Inr (replicate 300 120),
      content_after_captcha = Inr (replicate 300 120)\<rparr>\<close>

text \<open>The same attempt with the CAPTCHA mask on the page after the login; after the wait
  the page shows none of the error texts.\<close>

definition env_captcha_solved :: attempt_env where
  \<open>env_captcha_solved =
     env_no_captcha\<lparr>locator_count :=
       (\<lambda>selector. if selector = str ''button:has-text("Google")'' then Inr 1
                    else if selector = str ''div[id="captchaMask"]'' then Inr 1
                    else Inr 0)\<rparr>\<close>

text \<open>The same, but after the wait the page shows an error text.\<close>

definition env_captcha_error :: attempt_env where
  \<open>env_captcha_error =
     env_captcha_solved\<lparr>content_after_captcha :=
       Inr (replicate 150 120 @ str ''Page cannot be displayed'' @ replicate 150 120)\<rparr>\<close>

text \<open>An attempt that the detector classifies as blocked.\<close>

definition env_blocked :: attempt_env where
  "env_blocked = env_no_captcha\<lparr>blocking_page := page_content_fault\<rparr>"

text \<open>An attempt in which the browser starts and the set-up of its page then times
  out.\<close>

definition env_setup_fails :: attempt_env where
  \<open>env_setup_fails =
     env_no_captcha\<lparr>page_setup := Inl (PlaywrightTimeoutError (str ''Timeout 30000ms exceeded.''))\<rparr>\<close>

text \<open>Two conditions on the outside world of an attempt. The first: the attempt gets
  through the login, that is, the browser starts, the page loads and is not blocked, the
  sign-in button is found, the popup opens, \<open>handle_google_login_process\<close> returns \<open>True\<close>
  and the content after the login can be read. The second: a CAPTCHA element is on the
  page after the login, the four-minute wait returns, and the content read after it
  shows no CAPTCHA error text, no app-only error text and has at least 200 characters
  when stripped.\<close>

definition captcha_passed :: "attempt_env \<Rightarrow> bool" where
  "captcha_passed env =
     (captcha_found (locator_count env) captcha_selectors \<and>
      step env WriteCaptchaSuccess = Inr () \<and> step env CaptchaWait = Inr () \<and>
      (case content_after_captcha env of
         Inr content2 \<Rightarrow> \<not> text_found captcha_error_texts content2 \<and>
                         \<not> text_found app_only_error_texts content2 \<and>
                         \<not> length (strip content2) < 200
       | Inl e \<Rightarrow> False) \<and>
      step env ProductPageWait = Inr ())"

definition login_done :: "attempt_env \<Rightarrow> bool" where
  "login_done env =
     (launch_persistent_context env = Inr () \<and> page_setup env = Inr () \<and>
      step env Goto = Inr () \<and> step env StabilizeWait = Inr () \<and>
      is_shopee_blocking (blocking_page env) = Inr False \<and>
      step env HumanDelay = Inr () \<and>
      (case first_field (locator_count env) google_button_selectors of
         Inr (Some button) \<Rightarrow> True | Inr None \<Rightarrow> False | Inl e \<Rightarrow> False) \<and>
      step env PreClickDelay = Inr () \<and> step env ExpectPopup = Inr () \<and>
      handle_google_login_process (login env) = Inr True \<and>
      step env RedirectWait = Inr () \<and>
      (case content_after_login env of Inr page_content \<Rightarrow> True | Inl e \<Rightarrow> False))"

text \<open>What makes the detector's verdict end an attempt: the browser starts, the page
  loads, \<open>is_shopee_blocking\<close> returns \<open>True\<close> and the session closes.\<close>

definition blocked_attempt :: "attempt_env \<Rightarrow> bool" where
  "blocked_attempt env =
     (launch_persistent_context env = Inr () \<and> page_setup env = Inr () \<and>
      step env Goto = Inr () \<and> step env StabilizeWait = Inr () \<and>
      is_shopee_blocking (blocking_page env) = Inr True \<and>
      step env CloseBlocked = Inr ())"


definition envs_setup_fails :: "nat \<Rightarrow> proxy \<Rightarrow> attempt_env" where
  "envs_setup_fails n p = env_setup_fails"

definition envs_setup_fails_later :: "nat \<Rightarrow> proxy \<Rightarrow> attempt_env" where
  "envs_setup_fails_later n p =
     (if n = 2 then env_setup_fails else if n = 3 then env_captcha_solved else env_blocked)"

definition rnd_zero :: "nat \<Rightarrow> nat" where
  "rnd_zero k = 0"

text \<open>Two notions for the session discipline. A stage of the loop body, run while
  \<open>browser\<close> names session \<open>h\<close>, keeps the discipline when it either executes
  \<open>continue\<close> having closed \<open>h\<close>, or returns or raises with the session log unchanged; in
  each case \<open>browser\<close> still names \<open>h\<close>. And an outside world in which no call of
  \<open>browser.close()\<close> raises.\<close>

definition ends_open :: "nat \<Rightarrow> world \<Rightarrow> (signal + 'a) \<times> world \<Rightarrow> bool" where
  "ends_open h w res =
     (case res of
        (Inl Continue, w') \<Rightarrow> sessions w' = sessions w @ [Closed h] \<and> browser w' = Some h
      | (Inl (Raise e), w') \<Rightarrow> sessions w' = sessions w \<and> browser w' = Some h
      | (Inr v, w') \<Rightarrow> sessions w' = sessions w \<and> browser w' = Some h)"

definition closes_return :: "attempt_env \<Rightarrow> bool" where
  "closes_return env =
     (\<forall>site \<in> set [CloseBlocked, CloseNoButton, CloseCaptchaError, CloseAppError,
                     CloseBlankPage, CloseLoginError, CloseEnd, CloseTimeout, CloseError].
        step env site = Inr ())"

section \<open>api.py\<close>

text \<open>The calls of one request, by call site.\<close>

datatype api_step =
    ApiGoto
  | ApiStabilizeWait
  | ApiCaptchaWait
  | ApiProductPageWait
  | ApiCloseCaptchaError
  | ApiCloseEnd
  | ApiCloseTimeout
  | ApiCloseError

text \<open>The dictionary that \<open>scrape_product_data\<close> builds; a key is absent when no selector
  matched. Every lookup in that function is under \<open>except Exception: pass\<close>, so it always
  returns; what it finds on the page is an input.\<close>

record product_data =
  title :: "pystr option"
  price :: "pystr option"
  description :: "pystr option"
  image_urls :: "pystr list option"
  seller :: "pystr option"
  product_url :: pystr

record api_env =
  api_playwright_start :: "exc + unit"
  api_launch_browser_with_proxy :: "exc + unit"
  api_step :: "api_step \<Rightarrow> exc + unit"
  api_locator_count :: "pystr \<Rightarrow> exc + nat"
  api_content :: "exc + pystr"
  scrape_product_data :: product_data

text \<open>What the caller of the endpoint receives: a \<open>ScrapingResponse\<close> with its three
  fields, or the HTTP error that FastAPI makes of an \<open>HTTPException\<close>.\<close>

datatype http_result =
    ScrapingResponse bool "product_data option" "pystr option"
  | HTTPException nat pystr

text \<open>The body of the inner \<open>try\<close>. The \<open>return\<close> in the CAPTCHA branch ends the function;
  the value \<open>None\<close> of the first part stands for reaching the code after the branch.\<close>

definition scrape_try :: "api_env \<Rightarrow> exc + http_result" where
  "scrape_try env =
     rseq (api_step env ApiGoto)
    (rseq (api_step env ApiStabilizeWait)
    (rbind
       (if captcha_found (api_locator_count env) captcha_selectors
        then rseq (api_step env ApiCaptchaWait)
            (rbind (api_content env) (\<lambda>page_content.
               if text_found captcha_error_texts page_content
               then rseq (api_step env ApiCloseCaptchaError)
                      (Inr (Some (ScrapingResponse False None
                                    (Some (str ''Captcha failed - received error page'')))))
               else Inr None))
        else Inr None)
       (\<lambda>returned.
          case returned of
            Some response \<Rightarrow> Inr response
          | None \<Rightarrow>
              rseq (api_step env ApiProductPageWait)
             (rseq (api_step env ApiCloseEnd)
                   (Inr (ScrapingResponse True (Some (scrape_product_data env))
                           (Some (str ''Product data scraped successfully''))))))))"

text \<open>The request gets past the CAPTCHA check without returning and without raising:
  no CAPTCHA element was found, or the wait returned and the content read after it
  shows none of the error texts.\<close>

definition api_captcha_cleared :: "api_env \<Rightarrow> bool" where
  "api_captcha_cleared env =
     (if captcha_found (api_locator_count env) captcha_selectors
      then api_step env ApiCaptchaWait = Inr () \<and>
           (case api_content env of
              Inr page_content \<Rightarrow> \<not> text_found captcha_error_texts page_content
            | Inl e \<Rightarrow> False)
      else True)"

text \<open>The two handlers of the inner \<open>try\<close>.\<close>

definition scrape_except :: "api_env \<Rightarrow> exc \<Rightarrow> exc + http_result" where
  "scrape_except env e =
     (case e of
        PlaywrightTimeoutError t \<Rightarrow>
          rseq (api_step env ApiCloseTimeout)
               (Inr (ScrapingResponse False None
                       (Some (str ''Timeout occurred while accessing the product page''))))
      | Exception t \<Rightarrow>
          rseq (api_step env ApiCloseError)
               (Inr (ScrapingResponse False None
                       (Some (str ''Error during scraping: '' @ exc_text e))))
      | UnboundLocalError t \<Rightarrow>
          rseq (api_step env ApiCloseError)
               (Inr (ScrapingResponse False None
                       (Some (str ''Error during scraping: '' @ exc_text e)))))"

text \<open>The endpoint: the outer \<open>try\<close> turns any exception that reaches it into
  \<open>HTTPException(status_code=500, detail=...)\<close>.\<close>

definition scrape_shopee_product :: "api_env \<Rightarrow> http_result" where
  "scrape_shopee_product env =
     (case rseq (api_playwright_start env)
          (rseq (api_launch_browser_with_proxy env)
                (rtry (scrape_try env) (scrape_except env))) of
        Inl e \<Rightarrow> HTTPException 500 (str ''Server error: '' @ exc_text e)
      | Inr response \<Rightarrow> response)"

text \<open>Example requests: one in which every call returns and no CAPTCHA shows; one in
  which the navigation fails; one in which it times out; one in which the browser cannot
  be launched; one with a
  CAPTCHA after which the page shows an error text.\<close>

definition no_product :: product_data where
  \<open>no_product = \<lparr>title = None, price = None, description = None, image_urls = None,
                  seller = None, product_url = str ''https://shopee.tw/p''\<rparr>\<close>

definition api_ok :: api_env where
  "api_ok =
     \<lparr>api_playwright_start = Inr (),
      api_launch_browser_with_proxy = Inr (),
      api_step = (\<lambda>s. Inr ()),
      api_locator_count = (\<lambda>selector. Inr 0),
      api_content = Inr (replicate 300 120),
      scrape_product_data = no_product\<rparr>"

definition api_goto_fails :: api_env where
  \<open>api_goto_fails =
     api_ok\<lparr>api_step := (\<lambda>s. if s = ApiGoto
                               then Inl (Exception (str ''net::ERR_PROXY_CONNECTION_FAILED''))
                               else Inr ())\<rparr>\<close>

definition api_goto_times_out :: api_env where
  \<open>api_goto_times_out =
     api_ok\<lparr>api_step := (\<lambda>s. if s = ApiGoto
                               then Inl (PlaywrightTimeoutError (str ''Timeout 120000ms exceeded.''))
                               else Inr ())\<rparr>\<close>

definition api_launch_fails :: api_env where
  \<open>api_launch_fails =
     api_ok\<lparr>api_launch_browser_with_proxy := Inl (Exception (str ''BrowserType.launch failed''))\<rparr>\<close>

definition api_captcha_error :: api_env where
  \<open>api_captcha_error =
     api_ok\<lparr>api_locator_count := (\<lambda>selector. Inr 1),
            api_content := Inr (replicate 150 120 @ str ''Page cannot be displayed''
                                @ replicate 150 120)\<rparr>\<close>

section \<open>Facts about strings\<close>

lemma str_in_iff_sublist: "str_in sub s \<longleftrightarrow> sublist sub s"
  by (induction s) (auto simp: sublist_Cons_right)

lemma scan_replace_absent: "\<not> str_in old s \<Longrightarrow> scan_replace old new s = s"
  by (induction s) auto

text \<open>A run of characters that avoids the first character of \<open>new\<close> and starts the
  output of a replacement already starts the input.\<close>

lemma prefix_scan_replace:
  "new \<noteq> [] \<Longrightarrow> hd new \<notin> set p \<Longrightarrow> prefix p (scan_replace old new s) \<Longrightarrow> prefix p s"
proof (induction old new s arbitrary: p rule: scan_replace.induct)
  case (1 old new)
  then show ?case by simp
next
  case (2 old new c cs)
  show ?case
  proof (cases "old \<noteq> [] \<and> prefix old (c # cs)")
    case True
    with "2.prems"(3) have "prefix p (new @ scan_replace old new (drop (length old) (c # cs)))"
      by simp
    with "2.prems"(1,2) have "p = []"
      by (cases p; cases new) auto
    then show ?thesis by simp
  next
    case False
    with "2.prems"(3) have pre: "prefix p (c # scan_replace old new cs)" by auto
    show ?thesis
    proof (cases p)
      case Nil
      then show ?thesis by simp
    next
      case (Cons a p')
      with pre have "a = c" and "prefix p' (scan_replace old new cs)" by auto
      moreover from Cons "2.prems"(2) have "hd new \<notin> set p'" by simp
      ultimately have "prefix p' cs" using "2.IH"(2)[OF False "2.prems"(1)] by blast
      with Cons \<open>a = c\<close> show ?thesis by simp
    qed
  qed
qed

lemma str_in_append_cases:
  "str_in old (xs @ r) \<Longrightarrow> (\<exists>q<length xs. prefix old (drop q xs @ r)) \<or> str_in old r"
proof (induction xs)
  case Nil
  then show ?case by simp
next
  case (Cons x xs)
  from Cons.prems have "prefix old (x # xs @ r) \<or> str_in old (xs @ r)" by simp
  then show ?case
  proof
    assume "prefix old (x # xs @ r)"
    then have "prefix old (drop 0 (x # xs) @ r)" by simp
    then show ?thesis by (metis length_greater_0_conv list.discI)
  next
    assume "str_in old (xs @ r)"
    with Cons.IH have "(\<exists>q<length xs. prefix old (drop q xs @ r)) \<or> str_in old r" by simp
    then show ?thesis
    proof
      assume "\<exists>q<length xs. prefix old (drop q xs @ r)"
      then obtain q where "q < length xs" "prefix old (drop q xs @ r)" by blast
      then have "Suc q < length (x # xs)" "prefix old (drop (Suc q) (x # xs) @ r)" by simp_all
      then show ?thesis by blast
    qed simp
  qed
qed

text \<open>When no occurrence of \<open>old\<close> can begin inside a copy of \<open>new\<close>, and the first
  character of \<open>new\<close> appears in \<open>old\<close> at its head only, the output of a replacement
  holds no occurrence of \<open>old\<close>.\<close>

lemma scan_replace_clean:
  assumes "old \<noteq> []" "new \<noteq> []" "hd new \<notin> set (tl old)"
    and inside: "\<And>q t. q < length new \<Longrightarrow> \<not> prefix old (drop q new @ t)"
  shows "\<not> str_in old (scan_replace old new s)"
proof (induction s rule: length_induct)
  case (1 s)
  show ?case
  proof (cases s)
    case Nil
    with assms(1) show ?thesis by simp
  next
    case (Cons c cs)
    show ?thesis
    proof (cases "prefix old (c # cs)")
      case True
      let ?r = "scan_replace old new (drop (length old) (c # cs))"
      from assms(1) have "length (drop (length old) (c # cs)) < length s"
        using Cons by (cases old) auto
      with 1 have "\<not> str_in old ?r" by blast
      with inside have "\<not> str_in old (new @ ?r)"
        using str_in_append_cases by blast
      with True assms(1) Cons show ?thesis by simp
    next
      case False
      from 1 Cons have ih: "\<not> str_in old (scan_replace old new cs)" by simp
      have "\<not> prefix old (c # scan_replace old new cs)"
      proof
        assume p: "prefix old (c # scan_replace old new cs)"
        from assms(1) obtain a old' where old: "old = a # old'" by (cases old) auto
        with p have "a = c" "prefix old' (scan_replace old new cs)" by auto
        with assms(2,3) old have "prefix old' cs"
          using prefix_scan_replace by fastforce
        with old \<open>a = c\<close> False show False by simp
      qed
      with ih False Cons show ?thesis by simp
    qed
  qed
qed

lemma hd_drop_in_tl: "0 < q \<Longrightarrow> q < length xs \<Longrightarrow> hd (drop q xs) \<in> set (tl xs)"
  by (cases xs) (auto simp: hd_drop_conv_nth nth_Cons')

lemma hd_drop_in_set: "q < length xs \<Longrightarrow> hd (drop q xs) \<in> set xs"
  by (simp add: hd_drop_conv_nth)

lemma prefix_hd_eq: "prefix xs (ys @ t) \<Longrightarrow> xs \<noteq> [] \<Longrightarrow> ys \<noteq> [] \<Longrightarrow> hd xs = hd ys"
  by (cases xs; cases ys) auto

section \<open>extension.py: patching the API key into the extension script\<close>

lemma key_line_facts:
  \<open>sad_captcha_key_line \<noteq> []\<close>
  \<open>hd sad_captcha_key_line = 118\<close>
  \<open>118 \<notin> set (tl sad_captcha_key_line)\<close>
  \<open>118 \<notin> set (tl (str ''var apiKey = "''))\<close>
  \<open>118 \<notin> set (str ''";'')\<close>
  \<open>\<not> prefix (str ''var apiKey = "'') sad_captcha_key_line\<close>
  \<open>length (str ''var apiKey = "'') \<le> length sad_captcha_key_line\<close>
  \<open>\<not> sublist (str ''";'') sad_captcha_key_line\<close>
  \<open>\<not> suffix [34] sad_captcha_key_line\<close>
  \<open>\<not> suffix [34, 59] sad_captcha_key_line\<close>
  by (simp_all add: sad_captcha_key_line_def str_def flip: str_in_iff_sublist add: suffix_to_prefix)

text \<open>No occurrence of the line that is searched for begins inside the line that
  replaces it, whatever follows, unless the key itself holds one.\<close>

lemma key_assignment_inside:
  assumes absent: "\<not> str_in sad_captcha_key_line k"
    and q: \<open>q < length (str ''var apiKey = "'' @ k @ str ''";'')\<close>
  shows \<open>\<not> prefix sad_captcha_key_line (drop q (str ''var apiKey = "'' @ k @ str ''";'') @ t)\<close>
proof
  let ?N = sad_captcha_key_line
  let ?pre = \<open>str ''var apiKey = "''\<close>
  let ?post = \<open>str ''";''\<close>
  have lpre: "length ?pre = 14" and lpost: "length ?post = 2" and post: "?post = [34, 59]"
    by (simp_all add: str_def)
  assume P: "prefix ?N (drop q (?pre @ k @ ?post) @ t)"
  have nk: "\<not> sublist ?N k" using absent by (simp add: str_in_iff_sublist)
  consider (start) "q = 0" | (pre) "0 < q" "q < 14" | (key) "14 \<le> q" "q - 14 < length k"
    | (post) "14 \<le> q" "length k \<le> q - 14"
    by linarith
  then show False
  proof cases
    case start
    with P have "prefix ?N (?pre @ (k @ ?post @ t))" by simp
    moreover have "prefix ?pre (?pre @ (k @ ?post @ t))" by simp
    ultimately have "prefix ?N ?pre \<or> prefix ?pre ?N" by (rule prefix_same_cases)
    moreover have "prefix ?N ?pre \<Longrightarrow> prefix ?pre ?N"
    proof -
      assume a: "prefix ?N ?pre"
      then have "length ?N \<le> length ?pre" by (rule prefix_length_le)
      with key_line_facts(7) have "length ?N = length ?pre" by simp
      with a have "?N = ?pre" by (auto simp: prefix_def)
      then show "prefix ?pre ?N" by simp
    qed
    ultimately show False using key_line_facts(6) by blast
  next
    case pre
    with P lpre have "prefix ?N (drop q ?pre @ (k @ ?post @ t))" by simp
    moreover have "drop q ?pre \<noteq> []" using pre lpre by simp
    ultimately have "hd ?N = hd (drop q ?pre)"
      using key_line_facts(1) by (blast intro: prefix_hd_eq)
    moreover have "hd (drop q ?pre) \<in> set (tl ?pre)"
      using pre lpre by (intro hd_drop_in_tl) simp_all
    ultimately show False using key_line_facts(2,4) by simp
  next
    case key
    let ?d = "drop (q - 14) k"
    from P key lpre have "prefix ?N (?d @ (?post @ t))" by simp
    then consider "prefix ?N ?d" | us where "?N = ?d @ us" "prefix us (?post @ t)"
      by (auto simp: prefix_append)
    then show False
    proof cases
      case 1
      then have "sublist ?N k"
        by (meson prefix_imp_sublist sublist_drop sublist_order.order_trans)
      with nk show False ..
    next
      case 2
      from 2(2) consider "prefix us ?post" | vs where "us = ?post @ vs"
        by (auto simp: prefix_append)
      then show False
      proof cases
        case 1
        then have "us = [] \<or> us = [34] \<or> us = [34, 59]"
          unfolding post by (cases us; cases "tl us"; cases "tl (tl us)") auto
        moreover have "suffix us ?N" using 2(1) by (metis suffixI)
        moreover have "us = [] \<Longrightarrow> sublist ?N k" using 2(1) by (metis append_Nil2 sublist_drop)
        ultimately show False using nk key_line_facts(9,10) by blast
      next
        case 2
        with \<open>?N = ?d @ us\<close> have "sublist ?post ?N" by (metis sublist_appendI)
        with key_line_facts(8) show False ..
      qed
    qed
  next
    case post
    from q lpre lpost have ql: "q - 14 - length k < 2" "q - 14 - length k < length ?post"
      by simp_all
    from P post lpre have "prefix ?N (drop (q - 14 - length k) ?post @ t)" by simp
    moreover have "drop (q - 14 - length k) ?post \<noteq> []" using ql lpost by simp
    ultimately have "hd ?N = hd (drop (q - 14 - length k) ?post)"
      using key_line_facts(1) by (blast intro: prefix_hd_eq)
    moreover have "hd (drop (q - 14 - length k) ?post) \<in> set ?post"
      using ql(2) by (rule hd_drop_in_set)
    ultimately show False using key_line_facts(2,5) by simp
  qed
qed

lemma key_assignment_hd:
  \<open>str ''var apiKey = "'' @ k @ str ''";'' \<noteq> [] \<and> hd (str ''var apiKey = "'' @ k @ str ''";'') = 118\<close>
  by (simp add: str_def)

text \<open>Claim C10. \<open>update_js_contents\<close> is idempotent: for every content \<open>c\<close> and every
  API key \<open>k\<close> that does not contain the line
  \<^verbatim>\<open>var apiKey = localStorage.getItem("sadCaptchaKey");\<close>
  patching the patched content again with \<open>k\<close> changes nothing.\<close>

theorem update_js_contents_idempotent:
  assumes "\<not> str_in sad_captcha_key_line k"
  shows "update_js_contents (update_js_contents c k) k = update_js_contents c k"
proof -
  let ?new = \<open>str ''var apiKey = "'' @ k @ str ''";''\<close>
  have "\<not> str_in sad_captcha_key_line (scan_replace sad_captcha_key_line ?new c)"
    using key_line_facts(1,3) key_assignment_hd[of k] key_assignment_inside[OF assms]
    by (intro scan_replace_clean) auto
  then show ?thesis
    using key_line_facts(1)
    by (simp add: update_js_contents_def py_replace_def scan_replace_absent)
qed

theorem update_js_contents_idempotent_witness:
  \<open>\<not> str_in sad_captcha_key_line (str ''K1'') \<and>
   update_js_contents
     (update_js_contents (str ''a;var apiKey = localStorage.getItem("sadCaptchaKey");b'') (str ''K1''))
     (str ''K1'')
   = update_js_contents (str ''a;var apiKey = localStorage.getItem("sadCaptchaKey");b'') (str ''K1'')\<close>
proof -
  have h: "\<not> str_in sad_captcha_key_line (str ''K1'')"
    by (simp add: sad_captcha_key_line_def str_def)
  show ?thesis
    using h update_js_contents_idempotent [OF h] by simp
qed

section \<open>main.py: the proxy rotator\<close>

lemma random_choice_mem: "xs \<noteq> [] \<Longrightarrow> random_choice xs r \<in> set xs"
  by (simp add: random_choice_def)

lemma get_random_proxy_Some:
  assumes "proxies self \<noteq> []"
  shows "\<exists>p \<in> set (proxies self). fst (get_random_proxy self r) = Some p"
proof -
  define t where "t = (if card (tried_proxies self) \<ge> length (proxies self)
                     then {} else tried_proxies self)"
  define av where "av = filter (\<lambda>p. server p \<notin> t) (proxies self)"
  define av2 where "av2 = (if av = [] then proxies self else av)"
  have "av2 \<noteq> []" using assms by (simp add: av2_def)
  then have "random_choice av2 r \<in> set av2" by (rule random_choice_mem)
  moreover have "set av2 \<subseteq> set (proxies self)" by (auto simp: av2_def av_def)
  moreover have "fst (get_random_proxy self r) = Some (random_choice av2 r)"
    using assms by (simp add: get_random_proxy_def Let_def av2_def av_def t_def)
  ultimately show ?thesis by blast
qed

lemma get_random_proxy_proxies: "proxies (snd (get_random_proxy self r)) = proxies self"
  by (simp add: get_random_proxy_def Let_def)

lemma get_random_proxy_fresh:
  assumes d: "distinct (map server (proxies self))"
    and sub: "tried_proxies self \<subseteq> server ` set (proxies self)"
    and c: "card (tried_proxies self) < length (proxies self)"
  shows "\<exists>p \<in> set (proxies self). server p \<notin> tried_proxies self \<and>
           get_random_proxy self r =
             (Some p, self\<lparr>tried_proxies := insert (server p) (tried_proxies self)\<rparr>)"
proof -
  let ?av = "filter (\<lambda>p. server p \<notin> tried_proxies self) (proxies self)"
  have "card (server ` set (proxies self)) = length (proxies self)"
    using d by (metis distinct_card set_map length_map)
  with c sub have "tried_proxies self \<noteq> server ` set (proxies self)" by auto
  with sub obtain p where "p \<in> set (proxies self)" "server p \<notin> tried_proxies self" by blast
  then have ne: "?av \<noteq> []" by (auto simp: filter_empty_conv)
  then have "random_choice ?av r \<in> set ?av" by (rule random_choice_mem)
  then have m: "random_choice ?av r \<in> set (proxies self)"
    "server (random_choice ?av r) \<notin> tried_proxies self" by auto
  from c have pne: "proxies self \<noteq> []" by auto
  have "get_random_proxy self r =
      (Some (random_choice ?av r),
       self\<lparr>tried_proxies := insert (server (random_choice ?av r)) (tried_proxies self)\<rparr>)"
    using c ne pne by (simp add: get_random_proxy_def Let_def)
  with m show ?thesis by blast
qed

lemma get_random_proxy_calls_fresh:
  assumes "distinct (map server (proxies self))"
    and "tried_proxies self \<subseteq> server ` set (proxies self)"
    and "card (tried_proxies self) + length rs \<le> length (proxies self)"
  shows "\<exists>ps. fst (get_random_proxy_calls self rs) = map Some ps \<and> length ps = length rs \<and>
           set ps \<subseteq> set (proxies self) \<and> distinct (map server ps) \<and>
           server ` set ps \<inter> tried_proxies self = {} \<and>
           proxies (snd (get_random_proxy_calls self rs)) = proxies self \<and>
           tried_proxies (snd (get_random_proxy_calls self rs)) = tried_proxies self \<union> server ` set ps"
  using assms
proof (induction rs arbitrary: self)
  case Nil
  then show ?case by simp
next
  case (Cons r rs)
  from Cons.prems have "card (tried_proxies self) < length (proxies self)" by simp
  from get_random_proxy_fresh[OF Cons.prems(1,2) this, of r]
  obtain p where p: "p \<in> set (proxies self)" "server p \<notin> tried_proxies self"
    "get_random_proxy self r = (Some p, self\<lparr>tried_proxies := insert (server p) (tried_proxies self)\<rparr>)"
    by blast
  let ?s = "self\<lparr>tried_proxies := insert (server p) (tried_proxies self)\<rparr>"
  have fin: "finite (tried_proxies self)"
    using Cons.prems(2) by (meson finite_imageI finite_set finite_subset)
  have "\<exists>ps. fst (get_random_proxy_calls ?s rs) = map Some ps \<and> length ps = length rs \<and>
           set ps \<subseteq> set (proxies ?s) \<and> distinct (map server ps) \<and>
           server ` set ps \<inter> tried_proxies ?s = {} \<and>
           proxies (snd (get_random_proxy_calls ?s rs)) = proxies ?s \<and>
           tried_proxies (snd (get_random_proxy_calls ?s rs)) = tried_proxies ?s \<union> server ` set ps"
    using Cons.prems p fin by (intro Cons.IH) auto
  then obtain ps where ps: "fst (get_random_proxy_calls ?s rs) = map Some ps" "length ps = length rs"
    "set ps \<subseteq> set (proxies self)" "distinct (map server ps)"
    "server ` set ps \<inter> insert (server p) (tried_proxies self) = {}"
    "proxies (snd (get_random_proxy_calls ?s rs)) = proxies self"
    "tried_proxies (snd (get_random_proxy_calls ?s rs)) = insert (server p) (tried_proxies self) \<union> server ` set ps"
    by auto
  show ?case
    apply (rule exI[of _ "p # ps"])
    using p ps by (auto simp: split_beta)
qed


text \<open>Claim C5. For a pool of \<open>N\<close> proxies with pairwise distinct servers, the first
  \<open>N\<close> consecutive calls of \<open>get_random_proxy\<close> on a new rotator, whatever the random
  draws \<open>rs\<close>, all return a proxy, the \<open>N\<close> servers returned are pairwise distinct and
  cover the pool; call \<open>N + 1\<close> returns a proxy of the pool again, so one already
  returned; and on any rotator with a non-empty pool the call never returns \<open>None\<close>.\<close>

theorem get_random_proxy_cycle:
  assumes "distinct (map server pool)" and "length rs = length pool"
  shows "(\<exists>ps. fst (get_random_proxy_calls (ProxyRotator_init pool) rs) = map Some ps \<and>
            length ps = length pool \<and> distinct (map server ps) \<and> set ps = set pool \<and>
            (pool \<noteq> [] \<longrightarrow>
              (\<exists>p \<in> set ps.
                 fst (get_random_proxy (snd (get_random_proxy_calls (ProxyRotator_init pool) rs)) r)
                   = Some p))) \<and>
         (proxies self \<noteq> [] \<longrightarrow> fst (get_random_proxy self r') \<noteq> None)"
proof
  let ?init = "ProxyRotator_init pool"
  have "\<exists>ps. fst (get_random_proxy_calls ?init rs) = map Some ps \<and> length ps = length rs \<and>
           set ps \<subseteq> set (proxies ?init) \<and> distinct (map server ps) \<and>
           server ` set ps \<inter> tried_proxies ?init = {} \<and>
           proxies (snd (get_random_proxy_calls ?init rs)) = proxies ?init \<and>
           tried_proxies (snd (get_random_proxy_calls ?init rs)) = tried_proxies ?init \<union> server ` set ps"
    using assms by (intro get_random_proxy_calls_fresh) (simp_all add: ProxyRotator_init_def)
  then obtain ps where ps: "fst (get_random_proxy_calls ?init rs) = map Some ps"
    "length ps = length pool" "set ps \<subseteq> set pool" "distinct (map server ps)"
    "proxies (snd (get_random_proxy_calls ?init rs)) = pool"
    using assms(2) by (auto simp: ProxyRotator_init_def)
  have "distinct ps" using ps(4) by (rule distinct_map[THEN iffD1, THEN conjunct1])
  moreover have "distinct pool" using assms(1) by (rule distinct_map[THEN iffD1, THEN conjunct1])
  ultimately have "card (set ps) = card (set pool)"
    using ps(2) by (simp add: distinct_card)
  with ps(3) have eq: "set ps = set pool" by (simp add: card_subset_eq)
  have "pool \<noteq> [] \<longrightarrow>
        (\<exists>p \<in> set ps. fst (get_random_proxy (snd (get_random_proxy_calls ?init rs)) r) = Some p)"
    using get_random_proxy_Some[of "snd (get_random_proxy_calls ?init rs)" r] ps(5) eq by simp
  with ps eq show "\<exists>ps. fst (get_random_proxy_calls ?init rs) = map Some ps \<and>
            length ps = length pool \<and> distinct (map server ps) \<and> set ps = set pool \<and>
            (pool \<noteq> [] \<longrightarrow>
              (\<exists>p \<in> set ps.
                 fst (get_random_proxy (snd (get_random_proxy_calls ?init rs)) r) = Some p))"
    by blast
next
  show "proxies self \<noteq> [] \<longrightarrow> fst (get_random_proxy self r') \<noteq> None"
    using get_random_proxy_Some[of self r'] by auto
qed

theorem get_random_proxy_cycle_witness:
  "distinct (map server two_proxies) \<and> length [1, 0 :: nat] = length two_proxies \<and>
   proxies (ProxyRotator_init two_proxies) \<noteq> [] \<and> two_proxies \<noteq> [] \<and>
   (\<exists>ps. fst (get_random_proxy_calls (ProxyRotator_init two_proxies) [1, 0]) = map Some ps \<and>
            length ps = length two_proxies \<and> distinct (map server ps) \<and> set ps = set two_proxies \<and>
            (\<exists>p \<in> set ps.
                 fst (get_random_proxy (snd (get_random_proxy_calls (ProxyRotator_init two_proxies) [1, 0])) 7)
                   = Some p)) \<and>
   fst (get_random_proxy (ProxyRotator_init two_proxies) 3) \<noteq> None"
proof -
  have h1: "distinct (map server two_proxies)" by (simp add: two_proxies_def str_def)
  have h2: "length [1, 0 :: nat] = length two_proxies" by (simp add: two_proxies_def)
  have h3: "proxies (ProxyRotator_init two_proxies) \<noteq> []" "two_proxies \<noteq> []"
    by (simp_all add: two_proxies_def ProxyRotator_init_def)
  show ?thesis
    using h1 h2 h3
      get_random_proxy_cycle [OF h1 h2, of 7 "ProxyRotator_init two_proxies" 3]
    by simp
qed

section \<open>main.py: the block detector\<close>

lemma str_in_set_subset: "str_in t s \<Longrightarrow> set t \<subseteq> set s"
  by (simp add: str_in_iff_sublist set_mono_sublist)

lemma not_str_in_replicate: "t \<noteq> [] \<Longrightarrow> hd t \<noteq> c \<Longrightarrow> \<not> str_in t (replicate n c)"
proof
  assume "t \<noteq> []" "hd t \<noteq> c" "str_in t (replicate n c)"
  then have "set t \<subseteq> {c}" using str_in_set_subset by fastforce
  with \<open>t \<noteq> []\<close> have "hd t = c" by (cases t) auto
  with \<open>hd t \<noteq> c\<close> show False ..
qed

lemma str_in_middle: "str_in t (a @ t @ b)"
  by (simp add: str_in_iff_sublist)

lemma text_found_iff: "text_found ts c \<longleftrightarrow> (\<exists>t \<in> set ts. str_in t c)"
  by (induction ts) auto

lemma found_expected_element_pass:
  "found_expected_element (\<lambda>s. case q s of Inl e \<Rightarrow> Inr False | Inr b \<Rightarrow> Inr b) selectors
     = found_expected_element q selectors"
  by (induction selectors) (auto split: sum.splits bool.splits)

lemma is_shopee_blocking_returns: "\<exists>b. is_shopee_blocking page = Inr b"
  by (cases "content page")
     (auto simp: is_shopee_blocking_def is_shopee_blocking_try_def rbind_def rtry_def Let_def
        split: option.splits)

text \<open>Claim C6. Whenever the page content contains one of the block-indicator strings,
  \<open>is_shopee_blocking\<close> returns \<open>True\<close>, whatever the URL, the results of the selector
  queries and the transport status are.\<close>

theorem is_shopee_blocking_indicator:
  assumes "content page = Inr page_content"
    and "indicator \<in> set block_indicators"
    and "str_in indicator page_content"
  shows "is_shopee_blocking page = Inr True"
proof -
  from assms(2,3) have "text_found block_indicators page_content"
    unfolding text_found_iff by blast
  with assms(1) show ?thesis
    by (simp add: is_shopee_blocking_def is_shopee_blocking_try_def rbind_def rtry_def Let_def)
qed

theorem is_shopee_blocking_indicator_witness:
  "content page_with_indicator = Inr (replicate 150 120 @ [30331, 20986] @ replicate 150 120) \<and>
   [30331, 20986] \<in> set block_indicators \<and>
   str_in [30331, 20986] (replicate 150 120 @ [30331, 20986] @ replicate 150 120) \<and>
   \<not> str_in (str ''shopee'') (url page_with_indicator) \<and>
   is_shopee_blocking page_with_indicator = Inr True"
proof -
  have h1: "content page_with_indicator
            = Inr (replicate 150 120 @ [30331, 20986] @ replicate 150 120)"
    by (simp add: page_with_indicator_def)
  have h2: "[30331, 20986] \<in> set block_indicators"
    by (simp add: block_indicators_def)
  have h3: "str_in [30331, 20986] (replicate 150 120 @ [30331, 20986] @ replicate 150 120)"
    by (rule str_in_middle)
  have h4: "\<not> str_in (str ''shopee'') (url page_with_indicator)"
    by (simp add: page_with_indicator_def str_def)
  show ?thesis
    using h1 h2 h3 h4 is_shopee_blocking_indicator [OF h1 h2 h3] by simp
qed

text \<open>Claim C7, as the code has it. \<open>is_shopee_blocking\<close> never propagates an exception:
  it always returns a boolean. When reading the page content raises, it returns \<open>True\<close>.
  An exception raised by one selector query is passed over inside the loop and counts
  as that selector finding nothing, so the result is the one for a page on which that
  query returns no element.\<close>

theorem is_shopee_blocking_total:
  "(\<exists>b. is_shopee_blocking page = Inr b) \<and>
   (content page = Inl e \<longrightarrow> is_shopee_blocking page = Inr True) \<and>
   is_shopee_blocking
     (page\<lparr>query_selector := \<lambda>s. case query_selector page s of
                                     Inl e \<Rightarrow> Inr False | Inr b \<Rightarrow> Inr b\<rparr>)
     = is_shopee_blocking page"
  by (cases "content page")
     (auto simp: is_shopee_blocking_def is_shopee_blocking_try_def rbind_def rtry_def Let_def
        found_expected_element_pass split: option.splits)

theorem is_shopee_blocking_total_witness:
  "content page_content_fault = Inl (Exception (str ''Execution context was destroyed'')) \<and>
   is_shopee_blocking page_content_fault = Inr True"
proof -
  have h: "content page_content_fault = Inl (Exception (str ''Execution context was destroyed''))"
    by (simp add: page_content_fault_def)
  show ?thesis
    using h is_shopee_blocking_total [of page_content_fault "Exception (str ''Execution context was destroyed'')"]
    by simp
qed

text \<open>The claim as stated fails: on this page the first selector query raises, and the
  detector returns \<open>False\<close>.\<close>

theorem is_shopee_blocking_fault_counterexample:
  \<open>query_selector page_query_fault (str ''button:has-text("Google")'')
     = Inl (Exception (str ''Target closed'')) \<and>
   is_shopee_blocking page_query_fault = Inr False\<close>
proof -
  have "\<not> text_found block_indicators (replicate 120 120)"
    by (simp add: block_indicators_def not_str_in_replicate)
  moreover have "found_expected_element (query_selector page_query_fault) google_button_selectors"
    by (simp add: page_query_fault_def google_button_selectors_def str_def)
  moreover have "length (strip (replicate 120 120)) = 120"
    by (simp add: strip_def py_isspace_def)
  ultimately show ?thesis
    by (simp add: is_shopee_blocking_def is_shopee_blocking_try_def rbind_def rtry_def Let_def
        page_query_fault_def)
qed

section \<open>main.py: the login orchestrator\<close>

lemma fst_lbind: "fst (lbind m f) = (case fst m of Inl e \<Rightarrow> Inl e | Inr v \<Rightarrow> fst (f v))"
  by (cases m; cases "fst m") (auto simp: lbind_def split: prod.splits)

lemma fst_lseq: "fst (lseq m k) = (case fst m of Inl e \<Rightarrow> Inl e | Inr v \<Rightarrow> fst k)"
  by (simp add: lseq_def fst_lbind)

lemma fst_ltry: "fst (ltry m h) = (case fst m of Inl e \<Rightarrow> fst (h e) | Inr v \<Rightarrow> Inr v)"
  by (cases m; cases "fst m") (auto simp: ltry_def split: prod.splits)

lemma fst_lpass: "fst (lpass m) = Inr ()"
  by (cases "fst m") (simp_all add: lpass_def fst_ltry lret_def)

lemma fst_calls [simp]:
  "fst (lret v) = Inr v"
  "fst (do_step env s) = login_step env s"
  "fst (ask_count env q) = login_count env q"
  "fst (evaluate_consent env) = consent_evaluate env"
  by (simp_all add: lret_def do_step_def ask_count_def evaluate_consent_def)

lemma type_chars_result:
  "fst (type_chars env ty wait i chars) =
     Inr () \<longleftrightarrow>
   list_all (\<lambda>k. login_step env (ty k) = Inr () \<and> login_step env (wait k) = Inr ())
     [i..<i + length chars]"
proof (induction chars arbitrary: i)
  case Nil
  then show ?case by simp
next
  case (Cons c cs)
  have "[i..<i + length (c # cs)] = i # [Suc i..<Suc i + length cs]"
    by (subst upt_rec) simp
  with Cons[of "Suc i"] show ?case
    by (cases "login_step env (ty i)"; cases "login_step env (wait i)")
       (simp_all add: fst_lseq)
qed

lemma type_chars_typed_all:
  "fst (type_chars env ty wait 0 chars) = Inr () \<longleftrightarrow> typed_all env ty wait chars"
  using type_chars_result[of env ty wait 0 chars] by (simp add: typed_all_def)

lemma click_first_returns: "fst (click_first env count click selectors) = Inr ()"
proof (induction selectors)
  case Nil
  then show ?case by simp
next
  case (Cons s ss)
  then show ?case
    by (cases "login_count env (count s)"; cases "login_step env (click s)")
       (simp_all add: fst_lbind fst_ltry fst_lseq)
qed

lemma find_password_field_result:
  "(\<exists>field. fst (find_password_field env selectors) = Inr (Some field))
     \<longleftrightarrow> password_field_found env selectors"
proof (induction selectors)
  case Nil
  then show ?case by simp
next
  case (Cons s ss)
  then show ?case
    by (cases "login_count env (PasswordFieldCount s)") (auto simp: fst_lbind)
qed

lemma consent_handling_returns: "fst (consent_handling env) = Inr True"
  by (cases "consent_evaluate env"; cases "login_step env AfterConsentWait")
     (simp_all add: consent_handling_def fst_ltry fst_lbind fst_lseq fst_lpass)


lemma password_entry_result:
  "fst (password_entry env) =
     Inr (password_field_found env password_selectors \<and>
          login_step env PasswordClick = Inr () \<and>
          typed_all env PasswordType PasswordTypeWait
            (case GOOGLE_PASSWORD env of Some p \<Rightarrow> p | None \<Rightarrow> []) \<and>
          login_step env BeforePasswordNextWait = Inr () \<and>
          login_step env ConsentWait = Inr ())"
proof (cases "fst (find_password_field env password_selectors)")
  case (Inl e)
  with find_password_field_result[of env password_selectors]
  have "\<not> password_field_found env password_selectors" by auto
  with Inl show ?thesis by (simp add: password_entry_def fst_ltry fst_lbind)
next
  case (Inr field)
  show ?thesis
  proof (cases field)
    case None
    with Inr find_password_field_result[of env password_selectors]
    have "\<not> password_field_found env password_selectors" by auto
    with Inr None show ?thesis by (simp add: password_entry_def fst_ltry fst_lbind)
  next
    case (Some f)
    with Inr find_password_field_result[of env password_selectors]
    have found: "password_field_found env password_selectors" by auto
    let ?pw = "case GOOGLE_PASSWORD env of Some p \<Rightarrow> p | None \<Rightarrow> []"
    have t: "fst (type_chars env PasswordType PasswordTypeWait 0 ?pw) = Inr ()
               \<longleftrightarrow> typed_all env PasswordType PasswordTypeWait ?pw"
      by (rule type_chars_typed_all)
    show ?thesis
      using Inr Some found t
      by (cases "login_step env PasswordClick";
          cases "fst (type_chars env PasswordType PasswordTypeWait 0 ?pw)";
          cases "login_step env BeforePasswordNextWait"; cases "login_step env ConsentWait")
         (simp_all add: password_entry_def fst_ltry fst_lbind fst_lseq click_first_returns
           consent_handling_returns)
  qed
qed

lemma email_entry_result:
  "fst (email_entry env) =
     Inr (login_step env EmailSelectorWait = Inr () \<and>
          login_step env EmailClick = Inr () \<and>
          typed_all env EmailType EmailTypeWait
            (case GOOGLE_EMAIL env of Some e \<Rightarrow> e | None \<Rightarrow> []) \<and>
          login_step env BeforeNextWait = Inr () \<and>
          login_step env PasswordFieldWait = Inr () \<and>
          password_field_found env password_selectors \<and>
          login_step env PasswordClick = Inr () \<and>
          typed_all env PasswordType PasswordTypeWait
            (case GOOGLE_PASSWORD env of Some p \<Rightarrow> p | None \<Rightarrow> []) \<and>
          login_step env BeforePasswordNextWait = Inr () \<and>
          login_step env ConsentWait = Inr ())"
proof -
  let ?em = "case GOOGLE_EMAIL env of Some e \<Rightarrow> e | None \<Rightarrow> []"
  have t: "fst (type_chars env EmailType EmailTypeWait 0 ?em) = Inr ()
             \<longleftrightarrow> typed_all env EmailType EmailTypeWait ?em"
    by (rule type_chars_typed_all)
  show ?thesis
    using t
    by (cases "login_step env EmailSelectorWait"; cases "login_step env EmailClick";
        cases "fst (type_chars env EmailType EmailTypeWait 0 ?em)";
        cases "login_step env BeforeNextWait"; cases "login_step env PasswordFieldWait")
       (simp_all add: email_entry_def fst_ltry fst_lseq click_first_returns
         password_entry_result)
qed

text \<open>The return value, for every outside world: \<open>True\<close> exactly when the credentials
  are entered.\<close>

lemma handle_google_login_process_result:
  "handle_google_login_process env = Inr (credentials_entered env)"
  by (cases "login_step env LoadWait"; cases "login_step env ManualWait")
     (auto simp: handle_google_login_process_def handle_google_login_process_calls_def
       credentials_entered_def fst_ltry fst_lseq fst_lpass email_entry_result)

lemma manual_wait_calls:
  assumes "\<not> truthy (GOOGLE_EMAIL env) \<or> \<not> truthy (GOOGLE_PASSWORD env)"
  shows "handle_google_login_process_calls env =
     (Inr False,
      Did LoadWait #
      (case login_step env LoadWait of
         Inl e \<Rightarrow> [Did LoginErrorScreenshot]
       | Inr u \<Rightarrow>
           Did ManualWait #
           (case login_step env ManualWait of
              Inl e \<Rightarrow> [Did LoginErrorScreenshot]
            | Inr u \<Rightarrow> [])))"
  using assms
  by (cases "login_step env LoadWait"; cases "login_step env ManualWait";
      cases "login_step env LoginErrorScreenshot")
     (auto simp: handle_google_login_process_calls_def ltry_def lseq_def lbind_def lpass_def
       lret_def do_step_def)

lemma login_ok_returns_True: "handle_google_login_process login_ok = Inr True"
  by (simp add: handle_google_login_process_result credentials_entered_def typed_all_def
      login_ok_def password_selectors_def str_def)

lemma login_consent_raises_returns_True:
  "handle_google_login_process login_consent_raises = Inr True"
  by (simp add: handle_google_login_process_result credentials_entered_def typed_all_def
      login_consent_raises_def login_ok_def password_selectors_def str_def)

lemma login_all_raise_returns_False: "handle_google_login_process login_all_raise = Inr False"
  by (simp add: handle_google_login_process_result credentials_entered_def login_all_raise_def)


text \<open>Claim C8, as the code has it. \<open>handle_google_login_process\<close> always returns a boolean
  and never lets an exception out. It returns \<open>True\<close> exactly when the credentials are
  entered: both are configured and every call up to the wait for the consent screen
  returns (a password field being found), so that a fault in one of those calls, or a
  missing password field, gives \<open>False\<close>. The calls inside the two loops that click a Next
  button and the handling of the consent screen are not among them: a fault there is
  not turned into \<open>False\<close>. When the email or the password is not configured, the
  function makes the first wait, then the wait of 120 seconds for a manual login, and
  returns \<open>False\<close>; if one of the two waits raises, it tries the screenshot and returns
  \<open>False\<close>; it makes no other call.\<close>

theorem handle_google_login_process_returns:
  "handle_google_login_process env = Inr (credentials_entered env) \<and>
   (\<not> truthy (GOOGLE_EMAIL env) \<or> \<not> truthy (GOOGLE_PASSWORD env)
      \<longrightarrow> handle_google_login_process_calls env =
            (Inr False,
             Did LoadWait #
             (case login_step env LoadWait of
                Inl e \<Rightarrow> [Did LoginErrorScreenshot]
              | Inr u \<Rightarrow>
                  Did ManualWait #
                  (case login_step env ManualWait of
                     Inl e \<Rightarrow> [Did LoginErrorScreenshot]
                   | Inr u \<Rightarrow> []))))"
  using handle_google_login_process_result[of env] manual_wait_calls[of env] by blast

theorem handle_google_login_process_returns_witness:
  "GOOGLE_EMAIL login_no_credentials = None \<and>
   handle_google_login_process_calls login_no_credentials
     = (Inr False, [Did LoadWait, Did ManualWait]) \<and>
   credentials_entered login_ok \<and>
   handle_google_login_process login_ok = Inr True"
proof -
  have h: "GOOGLE_EMAIL login_no_credentials = None"
    by (simp add: login_no_credentials_def)
  have s: "login_step login_no_credentials LoadWait = Inr ()"
    "login_step login_no_credentials ManualWait = Inr ()"
    by (simp_all add: login_no_credentials_def login_ok_def)
  have c: "credentials_entered login_ok"
    by (simp add: credentials_entered_def typed_all_def login_ok_def password_selectors_def
        str_def)
  show ?thesis
    using h s c handle_google_login_process_returns [of login_no_credentials]
      handle_google_login_process_returns [of login_ok]
    by simp
qed

text \<open>The claim as stated fails: in this login the consent script raises, and so does
  every click on a Next button; the function makes these calls and returns \<open>True\<close>.\<close>

theorem handle_google_login_process_counterexample:
  \<open>consent_evaluate login_consent_raises
     = Inl (Exception (str ''Execution context was destroyed'')) \<and>
   login_step login_consent_raises (NextClick (str ''div[id="identifierNext"]''))
     = Inl (Exception (str ''Element is not attached'')) \<and>
   Evaluated_consent_script \<in> set (snd (handle_google_login_process_calls login_consent_raises)) \<and>
   Did (NextClick (str ''div[id="identifierNext"]''))
     \<in> set (snd (handle_google_login_process_calls login_consent_raises)) \<and>
   handle_google_login_process login_consent_raises = Inr True\<close>
proof -
  have "snd (handle_google_login_process_calls login_consent_raises) =
     [Did LoadWait, Did EmailSelectorWait, Did EmailClick,
      Did (EmailType 0), Did (EmailTypeWait 0), Did (EmailType 1), Did (EmailTypeWait 1),
      Did (EmailType 2), Did (EmailTypeWait 2), Did (EmailType 3), Did (EmailTypeWait 3),
      Did (EmailType 4), Did (EmailTypeWait 4), Did BeforeNextWait] @
     concat (map (\<lambda>s. [Asked (NextCount s), Did (NextClick s)]) next_button_selectors) @
     [Did PasswordFieldWait, Asked (PasswordFieldCount (hd password_selectors)),
      Did PasswordClick, Did (PasswordType 0), Did (PasswordTypeWait 0),
      Did (PasswordType 1), Did (PasswordTypeWait 1), Did BeforePasswordNextWait] @
     concat (map (\<lambda>s. [Asked (PasswordNextCount s), Did (PasswordNextClick s)])
               password_next_selectors) @
     [Did ConsentWait, Evaluated_consent_script, Did ConsentErrorScreenshot]"
    by (simp add: handle_google_login_process_calls_def email_entry_def password_entry_def
        consent_handling_def login_consent_raises_def login_ok_def
        next_button_selectors_def password_selectors_def password_next_selectors_def
        ltry_def lseq_def lbind_def lpass_def lret_def do_step_def ask_count_def
        evaluate_consent_def str_def)
  then show ?thesis
    using login_consent_raises_returns_True
    by (simp add: login_consent_raises_def login_ok_def next_button_selectors_def str_def)
qed

section \<open>main.py: one attempt\<close>

lemmas prog_defs = pret_def pcontinue_def pbind_def pseq_def await_def ptry_def ppass_def
  say_def record_event_def assign_browser_def assign_success_def

text \<open>Claim C9. After the wait, with the content read as \<open>page_content\<close>: when the
  content contains one of the CAPTCHA error texts, \<open>main\<close> prints its CAPTCHA-failure
  line and the attempt does not go on to the product page, and the endpoint answers
  with the CAPTCHA-failure response; when it contains none of them, \<open>main\<close> prints its
  CAPTCHA-solved line and goes on with that content, and the endpoint goes on to the
  success response.\<close>

theorem captcha_wait_classification:
  assumes "step env WriteCaptchaSuccess = Inr ()" and "step env CaptchaWait = Inr ()"
    and "content_after_captcha env = Inr page_content"
    and "step env ProductPageWait = Inr ()"
    and "api_playwright_start aenv = Inr ()" and "api_launch_browser_with_proxy aenv = Inr ()"
    and "\<forall>s. api_step aenv s = Inr ()"
    and "captcha_found (api_locator_count aenv) captcha_selectors"
    and "api_content aenv = Inr page_content"
  shows "if \<exists>t \<in> set captcha_error_texts. str_in t page_content
         then printed (snd (captcha_wait env w)) = printed w @ [Captcha_failed] \<and>
              (\<exists>s. fst (captcha_wait env w) = Inl s) \<and>
              scrape_shopee_product aenv =
                ScrapingResponse False None (Some (str ''Captcha failed - received error page''))
         else captcha_wait env w = (Inr page_content, w\<lparr>printed := printed w @ [Captcha_solved]\<rparr>) \<and>
              scrape_shopee_product aenv =
                ScrapingResponse True (Some (scrape_product_data aenv))
                  (Some (str ''Product data scraped successfully''))"
proof (cases "text_found captcha_error_texts page_content")
  case True
  have "printed (snd (captcha_wait env w)) = printed w @ [Captcha_failed] \<and>
        (\<exists>s. fst (captcha_wait env w) = Inl s)"
    using assms(1-3) True
    by (cases "step env WriteCaptchaError"; cases "step env ScreenshotCaptchaError";
        cases "browser w"; cases "step env CloseCaptchaError")
       (simp_all add: captcha_wait_def browser_close_def prog_defs)
  moreover have "scrape_shopee_product aenv =
      ScrapingResponse False None (Some (str ''Captcha failed - received error page''))"
    using assms(5-9) True
    by (simp add: scrape_shopee_product_def scrape_try_def rseq_def rbind_def rtry_def)
  ultimately show ?thesis using True by (simp add: text_found_iff)
next
  case False
  have "captcha_wait env w = (Inr page_content, w\<lparr>printed := printed w @ [Captcha_solved]\<rparr>)"
    using assms(1-4) False
    by (cases "step env ScrapeProduct") (simp_all add: captcha_wait_def prog_defs)
  moreover have "scrape_shopee_product aenv =
      ScrapingResponse True (Some (scrape_product_data aenv))
        (Some (str ''Product data scraped successfully''))"
    using assms(5-9) False
    by (simp add: scrape_shopee_product_def scrape_try_def rseq_def rbind_def rtry_def)
  ultimately show ?thesis using False by (simp add: text_found_iff)
qed

lemma env_captcha_error_facts:
  "step env_captcha_error s = Inr ()"
  "content_after_captcha env_captcha_error
     = Inr (replicate 150 120 @ str ''Page cannot be displayed'' @ replicate 150 120)"
  by (simp_all add: env_captcha_error_def env_captcha_solved_def env_no_captcha_def)

lemma api_captcha_error_facts:
  "api_playwright_start api_captcha_error = Inr ()"
  "api_launch_browser_with_proxy api_captcha_error = Inr ()"
  "\<forall>s. api_step api_captcha_error s = Inr ()"
  "captcha_found (api_locator_count api_captcha_error) captcha_selectors"
  "api_content api_captcha_error
     = Inr (replicate 150 120 @ str ''Page cannot be displayed'' @ replicate 150 120)"
  by (simp_all add: api_captcha_error_def api_ok_def captcha_selectors_def)

theorem captcha_wait_classification_witness:
  "str ''Page cannot be displayed'' \<in> set captcha_error_texts \<and>
   str_in (str ''Page cannot be displayed'')
          (replicate 150 120 @ str ''Page cannot be displayed'' @ replicate 150 120) \<and>
   printed (snd (captcha_wait env_captcha_error initial_world)) = [Captcha_failed] \<and>
   scrape_shopee_product api_captcha_error =
     ScrapingResponse False None (Some (str ''Captcha failed - received error page''))"
proof -
  have h1: "str ''Page cannot be displayed'' \<in> set captcha_error_texts"
    by (simp add: captcha_error_texts_def)
  have h2: "str_in (str ''Page cannot be displayed'')
          (replicate 150 120 @ str ''Page cannot be displayed'' @ replicate 150 120)"
    by (rule str_in_middle)
  from h1 h2 have h3: "\<exists>t \<in> set captcha_error_texts.
      str_in t (replicate 150 120 @ str ''Page cannot be displayed'' @ replicate 150 120)"
    by blast
  show ?thesis
    using h1 h2 h3
      captcha_wait_classification [OF env_captcha_error_facts(1) env_captcha_error_facts(1)
        env_captcha_error_facts(2) env_captcha_error_facts(1) api_captcha_error_facts,
        of initial_world]
    by (simp add: initial_world_def)
qed

text \<open>What an attempt does on four kinds of outside world.\<close>

lemma attempt_without_marker:
  assumes "launch_persistent_context env = Inr ()" and "page_setup env = Inr ()"
    and "step env Goto = Inr ()" and "step env StabilizeWait = Inr ()"
    and "is_shopee_blocking (blocking_page env) = Inr False"
    and "step env HumanDelay = Inr ()"
    and "first_field (locator_count env) google_button_selectors = Inr (Some button)"
    and "step env PreClickDelay = Inr ()" and "step env ExpectPopup = Inr ()"
    and "handle_google_login_process (login env) = Inr True"
    and "step env RedirectWait = Inr ()"
    and "content_after_login env = Inr page_content"
    and "\<not> captcha_found (locator_count env) captcha_selectors"
    and "\<not> text_found app_only_error_texts page_content"
    and "\<not> length (strip page_content) < 200"
    and "step env CloseEnd = Inr ()"
  shows "attempt env n w =
           (Inr (), w\<lparr>sessions := sessions w @ [Opened n, Closed n],
                       printed := printed w @ [Login_failed],
                       browser := Some n\<rparr>)"
proof -
  have lang: "language_selection env w' = (Inr (), w')" for w'
    by (cases "locator_count env language_selector"; cases "step env LanguageClick";
        cases "step env LanguageWait")
       (simp_all add: language_selection_def prog_defs)
  have post: "post_login_checks env w' = (Inr False, w')" for w'
    using assms(11-15) by (simp add: post_login_checks_def prog_defs)
  have gl: "google_login env w' = (Inr False, w')" for w'
    using assms(8-10) post by (simp add: google_login_def prog_defs)
  show ?thesis
    using assms(1-7,16) lang gl
    by (simp add: attempt_def attempt_try_def attempt_end_def launch_browser_with_proxy_def
        browser_close_def prog_defs)
qed

lemma attempt_with_marker_solved:
  assumes "launch_persistent_context env = Inr ()" and "page_setup env = Inr ()"
    and "step env Goto = Inr ()" and "step env StabilizeWait = Inr ()"
    and "is_shopee_blocking (blocking_page env) = Inr False"
    and "step env HumanDelay = Inr ()"
    and "first_field (locator_count env) google_button_selectors = Inr (Some button)"
    and "step env PreClickDelay = Inr ()" and "step env ExpectPopup = Inr ()"
    and "handle_google_login_process (login env) = Inr True"
    and "step env RedirectWait = Inr ()"
    and "content_after_login env = Inr page_content"
    and "captcha_found (locator_count env) captcha_selectors"
    and "step env WriteCaptchaSuccess = Inr ()" and "step env CaptchaWait = Inr ()"
    and "content_after_captcha env = Inr content2"
    and "\<not> text_found captcha_error_texts content2"
    and "step env ProductPageWait = Inr ()"
    and "\<not> text_found app_only_error_texts content2"
    and "\<not> length (strip content2) < 200"
    and "step env KeepOpenWait = Inr ()"
    and "step env CloseEnd = Inr ()"
  shows "attempt env n w =
           (Inr (), w\<lparr>sessions := sessions w @ [Opened n, Closed n],
                       printed := printed w @ [Captcha_solved, Login_completed],
                       browser := Some n, success := True\<rparr>)"
proof -
  have lang: "language_selection env w' = (Inr (), w')" for w'
    by (cases "locator_count env language_selector"; cases "step env LanguageClick";
        cases "step env LanguageWait")
       (simp_all add: language_selection_def prog_defs)
  have cw: "captcha_wait env w' = (Inr content2, w'\<lparr>printed := printed w' @ [Captcha_solved]\<rparr>)" for w'
    using assms(14-18)
    by (cases "step env ScrapeProduct") (simp_all add: captcha_wait_def prog_defs)
  have post: "post_login_checks env w' = (Inr True, w'\<lparr>printed := printed w' @ [Captcha_solved]\<rparr>)" for w'
    using assms(11-13,19,20) cw by (simp add: post_login_checks_def prog_defs)
  have gl: "google_login env w' = (Inr True, w'\<lparr>printed := printed w' @ [Captcha_solved]\<rparr>)" for w'
    using assms(8-10) post by (simp add: google_login_def prog_defs)
  show ?thesis
    using assms(1-7,21,22) lang gl
    by (cases "step env SaveSuccessInfo")
       (simp_all add: attempt_def attempt_try_def attempt_end_def launch_browser_with_proxy_def
        browser_close_def prog_defs)
qed

lemma attempt_blocked:
  assumes "blocked_attempt env"
  shows "attempt env n w =
           (Inl Continue, w\<lparr>sessions := sessions w @ [Opened n, Closed n],
                             printed := printed w @ [Shopee_is_blocking],
                             browser := Some n\<rparr>)"
  using assms
  by (simp add: blocked_attempt_def attempt_def attempt_try_def launch_browser_with_proxy_def
      browser_close_def prog_defs)

lemma attempt_setup_timeout:
  assumes "launch_persistent_context env = Inr ()"
    and "page_setup env = Inl (PlaywrightTimeoutError t)"
    and "step env CloseTimeout = Inr ()"
  shows "attempt env n w =
     (case browser w of
        None \<Rightarrow> (Inl (Raise (UnboundLocalError
                   (str ''cannot access local variable browser where it is not associated with a value''))),
                 w\<lparr>sessions := sessions w @ [Opened n], printed := printed w @ [Timeout_occurred]\<rparr>)
      | Some h \<Rightarrow> (Inr (), w\<lparr>sessions := sessions w @ [Opened n, Closed h],
                               printed := printed w @ [Timeout_occurred]\<rparr>))"
  using assms
  by (cases "step env ScreenshotTimeout"; cases "browser w")
     (simp_all add: attempt_def attempt_try_def launch_browser_with_proxy_def
      browser_close_def prog_defs)

lemma env_no_captcha_facts:
  "launch_persistent_context env_no_captcha = Inr ()"
  "page_setup env_no_captcha = Inr ()"
  "step env_no_captcha s = Inr ()"
  "is_shopee_blocking (blocking_page env_no_captcha) = Inr False"
  \<open>first_field (locator_count env_no_captcha) google_button_selectors
     = Inr (Some (str ''button:has-text("Google")''))\<close>
  "handle_google_login_process (login env_no_captcha) = Inr True"
  "content_after_login env_no_captcha = Inr (replicate 300 120)"
  "\<not> captcha_found (locator_count env_no_captcha) captcha_selectors"
  "\<not> text_found app_only_error_texts (replicate 300 120)"
  "\<not> text_found captcha_error_texts (replicate 300 120)"
  "\<not> length (strip (replicate 300 120)) < 200"
proof -
  have "\<not> text_found block_indicators (replicate 300 120)"
    by (simp add: block_indicators_def not_str_in_replicate)
  moreover have "length (strip (replicate 300 120)) = 300"
    by (simp add: strip_def py_isspace_def)
  ultimately show "is_shopee_blocking (blocking_page env_no_captcha) = Inr False"
    by (simp add: env_no_captcha_def page_clear_def is_shopee_blocking_def
        is_shopee_blocking_try_def rbind_def rtry_def google_button_selectors_def)
  show "handle_google_login_process (login env_no_captcha) = Inr True"
    by (simp add: env_no_captcha_def login_ok_returns_True)
  show "\<not> length (strip (replicate 300 120)) < 200"
    by (simp add: strip_def py_isspace_def)
  show "\<not> text_found app_only_error_texts (replicate 300 120)"
    by (simp add: app_only_error_texts_def not_str_in_replicate str_def)
  show "\<not> text_found captcha_error_texts (replicate 300 120)"
    by (simp add: captcha_error_texts_def not_str_in_replicate str_def)
  show "\<not> captcha_found (locator_count env_no_captcha) captcha_selectors"
    by (simp add: env_no_captcha_def captcha_selectors_def str_def)
  show \<open>first_field (locator_count env_no_captcha) google_button_selectors
     = Inr (Some (str ''button:has-text("Google")''))\<close>
    by (simp add: env_no_captcha_def google_button_selectors_def rbind_def)
qed (simp_all add: env_no_captcha_def)

lemma env_captcha_solved_facts:
  "launch_persistent_context env_captcha_solved = Inr ()"
  "page_setup env_captcha_solved = Inr ()"
  "step env_captcha_solved s = Inr ()"
  "is_shopee_blocking (blocking_page env_captcha_solved) = Inr False"
  \<open>first_field (locator_count env_captcha_solved) google_button_selectors
     = Inr (Some (str ''button:has-text("Google")''))\<close>
  "handle_google_login_process (login env_captcha_solved) = Inr True"
  "content_after_login env_captcha_solved = Inr (replicate 300 120)"
  "content_after_captcha env_captcha_solved = Inr (replicate 300 120)"
  "captcha_found (locator_count env_captcha_solved) captcha_selectors"
proof -
  show "is_shopee_blocking (blocking_page env_captcha_solved) = Inr False"
    using env_no_captcha_facts(4) by (simp add: env_captcha_solved_def)
  show "handle_google_login_process (login env_captcha_solved) = Inr True"
    using env_no_captcha_facts(6) by (simp add: env_captcha_solved_def)
  show "captcha_found (locator_count env_captcha_solved) captcha_selectors"
    by (simp add: env_captcha_solved_def captcha_selectors_def str_def)
  show \<open>first_field (locator_count env_captcha_solved) google_button_selectors
     = Inr (Some (str ''button:has-text("Google")''))\<close>
    by (simp add: env_captcha_solved_def google_button_selectors_def rbind_def)
qed (simp_all add: env_captcha_solved_def env_no_captcha_def)

section \<open>main.py: the attempt loop\<close>

lemma attempt_loop_unfold:
  assumes "\<not> success w" and "a < max_attempts_before_break" and "proxies rot \<noteq> []"
  shows "\<exists>p rot'. p \<in> set (proxies rot) \<and> proxies rot' = proxies rot \<and>
           attempt_loop envs rnd a rot w =
             (case attempt (envs (a + 1) p) (a + 1) w of
                (Inl (Raise e), w') \<Rightarrow> (Some e, a + 1, rot', w')
              | (Inl Continue, w') \<Rightarrow> attempt_loop envs rnd (a + 1) rot' w'
              | (Inr u, w') \<Rightarrow> attempt_loop envs rnd (a + 1) rot' w')"
proof -
  from get_random_proxy_Some[OF assms(3), of "rnd a"]
  obtain p where p: "p \<in> set (proxies rot)" "fst (get_random_proxy rot (rnd a)) = Some p"
    by blast
  define rot' where "rot' = snd (get_random_proxy rot (rnd a))"
  have g: "get_random_proxy rot (rnd a) = (Some p, rot')"
    using p(2) by (simp add: rot'_def prod_eq_iff)
  have "proxies rot' = proxies rot"
    by (simp add: rot'_def get_random_proxy_proxies)
  moreover have "attempt_loop envs rnd a rot w =
             (case attempt (envs (a + 1) p) (a + 1) w of
                (Inl (Raise e), w') \<Rightarrow> (Some e, a + 1, rot', w')
              | (Inl Continue, w') \<Rightarrow> attempt_loop envs rnd (a + 1) rot' w'
              | (Inr u, w') \<Rightarrow> attempt_loop envs rnd (a + 1) rot' w')"
    using assms(1,2) g by (subst attempt_loop.simps) simp
  ultimately show ?thesis using p(1) by blast
qed

lemma attempt_loop_stop:
  "success w \<or> \<not> a < max_attempts_before_break \<Longrightarrow>
   attempt_loop envs rnd a rot w = (None, a, rot, w)"
  by (subst attempt_loop.simps) auto



lemma main_after_loop:
  assumes "pool \<noteq> []"
    and "attempt_loop envs rnd 0 (ProxyRotator_init pool) initial_world = (x, n, rot', w)"
  shows "main pool (Inr ()) envs rnd =
           \<lparr>report = (case x of Some e \<Rightarrow> Critical_error e
                      | None \<Rightarrow> if success w then Successfully_accessed n else Failed_to_access n),
            attempts = n, final_world = w\<rparr>"
  using assms by (cases x) (simp_all add: main_def Let_def ProxyRotator_init_def)



lemma env_blocked_is_blocked: "blocked_attempt env_blocked"
proof -
  have "is_shopee_blocking page_content_fault = Inr True"
    by (simp add: is_shopee_blocking_def is_shopee_blocking_try_def page_content_fault_def
        rbind_def rtry_def)
  then show ?thesis
    by (simp add: blocked_attempt_def env_blocked_def env_no_captcha_def)
qed


section \<open>main.py: opening and closing sessions\<close>

lemma captcha_wait_ends_open:
  assumes "closes_return env" and "browser w = Some h"
  shows "ends_open h w (captcha_wait env w)"
  using assms
  by (auto simp: ends_open_def closes_return_def captcha_wait_def browser_close_def prog_defs
      split: sum.splits)

lemma post_login_checks_ends_open:
  assumes "closes_return env" and "browser w = Some h"
  shows "ends_open h w (post_login_checks env w)"
proof -
  obtain r w1 where cw: "captcha_wait env w = (r, w1)" by (cases "captcha_wait env w")
  from captcha_wait_ends_open[OF assms] cw
  have e: "ends_open h w (r, w1)" by simp
  show ?thesis
    using assms e cw
    by (cases r; cases "step env RedirectWait"; cases "content_after_login env")
       (auto simp: ends_open_def closes_return_def post_login_checks_def browser_close_def prog_defs
         split: sum.splits signal.splits)
qed


lemma google_login_ends_open:
  assumes "closes_return env" and "browser w = Some h"
  shows "ends_open h w (google_login env w)"
proof -
  obtain r w1 where pl: "post_login_checks env w = (r, w1)"
    by (cases "post_login_checks env w")
  from post_login_checks_ends_open[OF assms] pl
  have e: "ends_open h w (r, w1)" by simp
  show ?thesis
    using assms e pl
    by (cases r; cases "step env PreClickDelay"; cases "step env ExpectPopup";
        cases "handle_google_login_process (login env)"; cases "step env ScreenshotLoginError")
       (auto simp: ends_open_def closes_return_def google_login_def browser_close_def prog_defs
         split: sum.splits signal.splits)
qed

lemma attempt_end_closes:
  assumes "closes_return env" and "browser w = Some h"
  shows "\<exists>r w'. attempt_end env b w = (r, w') \<and> browser w' = Some h \<and>
           ((\<exists>e. r = Inl (Raise e)) \<and> sessions w' = sessions w \<or>
            r = Inr () \<and> sessions w' = sessions w @ [Closed h])"
  using assms
  by (cases "step env SaveSuccessInfo"; cases "step env KeepOpenWait")
     (auto simp: closes_return_def attempt_end_def browser_close_def prog_defs)

lemma language_selection_passes: "language_selection env w = (Inr (), w)"
  by (cases "locator_count env language_selector"; cases "step env LanguageClick";
      cases "step env LanguageWait")
     (simp_all add: language_selection_def prog_defs)

text \<open>After a launch that returned, the body of the attempt either raises with the
  session of the attempt still open, or ends (normally or by \<open>continue\<close>) with that
  session closed.\<close>

lemma attempt_try_closes:
  assumes "closes_return env"
    and "launch_persistent_context env = Inr ()" and "page_setup env = Inr ()"
  shows "\<exists>r w'. attempt_try env n w = (r, w') \<and> browser w' = Some n \<and>
           ((\<exists>e. r = Inl (Raise e)) \<and> sessions w' = sessions w @ [Opened n] \<or>
            (r = Inr () \<or> r = Inl Continue) \<and> sessions w' = sessions w @ [Opened n, Closed n])"
proof -
  let ?w0 = "w\<lparr>sessions := sessions w @ [Opened n], browser := Some n\<rparr>"
  have b0: "browser ?w0 = Some n" by simp
  obtain r w1 where gl: "google_login env ?w0 = (r, w1)" by (cases "google_login env ?w0")
  from google_login_ends_open[OF assms(1) b0] gl have e: "ends_open n ?w0 (r, w1)" by simp
  have ae: "\<exists>r' w'. attempt_end env b w1 = (r', w') \<and> browser w' = Some n \<and>
           ((\<exists>e. r' = Inl (Raise e)) \<and> sessions w' = sessions w1 \<or>
            r' = Inr () \<and> sessions w' = sessions w1 @ [Closed n])"
    if "browser w1 = Some n" for b
    using attempt_end_closes[OF assms(1) that] by blast
  have rest: "\<exists>r' w'. pbind (google_login env) (attempt_end env) ?w0 = (r', w') \<and>
           browser w' = Some n \<and>
           ((\<exists>e. r' = Inl (Raise e)) \<and> sessions w' = sessions w @ [Opened n] \<or>
            (r' = Inr () \<or> r' = Inl Continue) \<and> sessions w' = sessions w @ [Opened n, Closed n])"
  proof (cases r)
    case (Inl s)
    with e gl show ?thesis
      by (cases s) (auto simp: ends_open_def pbind_def)
  next
    case (Inr b)
    with e have "browser w1 = Some n" "sessions w1 = sessions w @ [Opened n]"
      by (auto simp: ends_open_def)
    with ae[of b] Inr gl show ?thesis
      by (auto simp: pbind_def)
  qed
  show ?thesis
    using assms rest
    by (cases "step env Goto"; cases "step env StabilizeWait";
        cases "is_shopee_blocking (blocking_page env)"; cases "step env HumanDelay";
        cases "first_field (locator_count env) google_button_selectors")
       (auto simp: closes_return_def attempt_try_def launch_browser_with_proxy_def
         language_selection_passes browser_close_def
         pret_def pcontinue_def pseq_def await_def say_def record_event_def assign_browser_def
         pbind_def[of "await _"] pbind_def[of "say _"] pbind_def[of "record_event _"]
         pbind_def[of "assign_browser _"] pbind_def[of "language_selection _"]
         pbind_def[of "browser_close _ _"] pbind_def[of "\<lambda>w. _ w"]
         split: option.splits)
qed


text \<open>When the launch returns and no call of \<open>browser.close()\<close> raises, every path through
  an attempt opens one session and closes it, and the attempt hands control back to the
  loop.\<close>

lemma attempt_closes_session:
  assumes "closes_return env"
    and "launch_persistent_context env = Inr ()" and "page_setup env = Inr ()"
  shows "\<exists>r w'. attempt env n w = (r, w') \<and> (r = Inr () \<or> r = Inl Continue) \<and>
           sessions w' = sessions w @ [Opened n, Closed n] \<and>
           open_sessions [Opened n, Closed n] = []"
proof -
  from attempt_try_closes[OF assms, of n w]
  obtain r w1 where t: "attempt_try env n w = (r, w1)" "browser w1 = Some n"
    "(\<exists>e. r = Inl (Raise e)) \<and> sessions w1 = sessions w @ [Opened n] \<or>
     (r = Inr () \<or> r = Inl Continue) \<and> sessions w1 = sessions w @ [Opened n, Closed n]"
    by blast
  have o: "open_sessions [Opened n, Closed n] = []" by (simp add: open_sessions_def)
  from t(3) show ?thesis
  proof
    assume "(\<exists>e. r = Inl (Raise e)) \<and> sessions w1 = sessions w @ [Opened n]"
    then obtain e where r: "r = Inl (Raise e)" and s: "sessions w1 = sessions w @ [Opened n]"
      by blast
    from assms(1) have c: "step env CloseTimeout = Inr ()" "step env CloseError = Inr ()"
      by (simp_all add: closes_return_def)
    show ?thesis
      using t(1,2) r s c o
      by (cases e; cases "step env ScreenshotTimeout"; cases "step env ScreenshotError")
         (simp_all add: attempt_def browser_close_def prog_defs)
  next
    assume "(r = Inr () \<or> r = Inl Continue) \<and> sessions w1 = sessions w @ [Opened n, Closed n]"
    with t(1) o show ?thesis by (auto simp: attempt_def ptry_def)
  qed
qed

text \<open>When an attempt sets \<open>success\<close>: stage by stage, then for the whole attempt.\<close>

lemma captcha_wait_success:
  "success (snd (captcha_wait env w)) = success w"
  "fst (captcha_wait env w) = Inr c \<longleftrightarrow>
           step env WriteCaptchaSuccess = Inr () \<and> step env CaptchaWait = Inr () \<and>
           content_after_captcha env = Inr c \<and> \<not> text_found captcha_error_texts c \<and>
           step env ProductPageWait = Inr ()"
  by (auto simp: captcha_wait_def browser_close_def prog_defs split: sum.splits option.splits if_splits)

lemma content_checks_success:
  fixes env :: attempt_env
  defines "checks \<equiv> (\<lambda>(login_success :: bool, page_content).
          if text_found app_only_error_texts page_content
          then pseq (say App_only_error)
              (pseq (await (step env WriteAppError))
              (pseq (browser_close env CloseAppError)
                    pcontinue))
          else if length (strip page_content) < 200
          then pseq (say Blank_page)
              (pseq (await (step env WriteBlankPage))
              (pseq (browser_close env CloseBlankPage)
                    pcontinue))
          else pret login_success)"
  shows "success (snd (checks (b, pc) w)) = success w"
    and "fst (checks (b, pc) w) = Inr True \<longleftrightarrow>
           b \<and> \<not> text_found app_only_error_texts pc \<and> \<not> length (strip pc) < 200"
proof -
  show "success (snd (checks (b, pc) w)) = success w"
    unfolding checks_def
    by (cases "step env WriteAppError"; cases "step env WriteBlankPage"; cases "browser w";
        cases "step env CloseAppError"; cases "step env CloseBlankPage")
       (simp_all add: browser_close_def prog_defs)
  show "fst (checks (b, pc) w) = Inr True \<longleftrightarrow>
           b \<and> \<not> text_found app_only_error_texts pc \<and> \<not> length (strip pc) < 200"
    unfolding checks_def
    by (cases "step env WriteAppError"; cases "step env WriteBlankPage"; cases "browser w";
        cases "step env CloseAppError"; cases "step env CloseBlankPage")
       (simp_all add: browser_close_def prog_defs)
qed

lemma post_login_checks_success:
  "success (snd (post_login_checks env w)) = success w"
  "fst (post_login_checks env w) = Inr True \<longleftrightarrow>
           step env RedirectWait = Inr () \<and>
           (case content_after_login env of Inr page_content \<Rightarrow> True | Inl e \<Rightarrow> False) \<and>
           captcha_passed env"
proof -
  define checks where "checks = (\<lambda>(login_success :: bool, page_content).
          if text_found app_only_error_texts page_content
          then pseq (say App_only_error)
              (pseq (await (step env WriteAppError))
              (pseq (browser_close env CloseAppError)
                    pcontinue))
          else if length (strip page_content) < 200
          then pseq (say Blank_page)
              (pseq (await (step env WriteBlankPage))
              (pseq (browser_close env CloseBlankPage)
                    pcontinue))
          else pret login_success)"
  have ch: "success (snd (checks (b, pc) w2)) = success w2"
    "fst (checks (b, pc) w2) = Inr True \<longleftrightarrow>
           b \<and> \<not> text_found app_only_error_texts pc \<and> \<not> length (strip pc) < 200"
    for b pc w2
    unfolding checks_def by (rule content_checks_success)+
  have pl: "post_login_checks env w =
     (case step env RedirectWait of
        Inl e \<Rightarrow> (Inl (Raise e), w)
      | Inr u \<Rightarrow>
         (case content_after_login env of
            Inl e \<Rightarrow> (Inl (Raise e), w)
          | Inr page_content \<Rightarrow>
              if captcha_found (locator_count env) captcha_selectors
              then (case captcha_wait env w of
                      (Inl s, w1) \<Rightarrow> (Inl s, w1)
                    | (Inr content2, w1) \<Rightarrow> checks (True, content2) w1)
              else checks (False, page_content) w))"
    by (simp add: post_login_checks_def checks_def pbind_def pseq_def await_def pret_def
        split: sum.splits prod.splits)
  obtain r1 w1 where cw: "captcha_wait env w = (r1, w1)" by (cases "captcha_wait env w")
  from captcha_wait_success[of env w] cw
  have c: "success w1 = success w"
    "\<And>c. r1 = Inr c \<longleftrightarrow>
           step env WriteCaptchaSuccess = Inr () \<and> step env CaptchaWait = Inr () \<and>
           content_after_captcha env = Inr c \<and> \<not> text_found captcha_error_texts c \<and>
           step env ProductPageWait = Inr ()"
    by simp_all
  show "success (snd (post_login_checks env w)) = success w"
    unfolding pl using c(1) cw ch(1)
    by (cases r1; cases "step env RedirectWait"; cases "content_after_login env") simp_all
  show "fst (post_login_checks env w) = Inr True \<longleftrightarrow>
           step env RedirectWait = Inr () \<and>
           (case content_after_login env of Inr page_content \<Rightarrow> True | Inl e \<Rightarrow> False) \<and>
           captcha_passed env"
  proof (cases r1)
    case (Inl s)
    with c(2) have "\<not> captcha_passed env \<or> \<not> captcha_found (locator_count env) captcha_selectors"
      by (auto simp: captcha_passed_def split: sum.splits)
    then have "\<not> captcha_passed env" by (auto simp: captcha_passed_def)
    then show ?thesis
      unfolding pl using Inl cw ch(2)
      by (cases "step env RedirectWait"; cases "content_after_login env") simp_all
  next
    case (Inr content2)
    with c(2)[of content2] have k: "step env WriteCaptchaSuccess = Inr ()"
      "step env CaptchaWait = Inr ()" "content_after_captcha env = Inr content2"
      "\<not> text_found captcha_error_texts content2" "step env ProductPageWait = Inr ()"
      by simp_all
    show ?thesis
      unfolding pl using Inr cw ch(2) k
      by (cases "step env RedirectWait"; cases "content_after_login env")
         (simp_all add: captcha_passed_def)
  qed
qed


lemma google_login_success:
  "success (snd (google_login env w)) = success w"
  "fst (google_login env w) = Inr True \<longleftrightarrow>
     step env PreClickDelay = Inr () \<and> step env ExpectPopup = Inr () \<and>
     handle_google_login_process (login env) = Inr True \<and>
     step env RedirectWait = Inr () \<and>
     (case content_after_login env of Inr page_content \<Rightarrow> True | Inl e \<Rightarrow> False) \<and>
     captcha_passed env"
proof -
  obtain r1 w1 where pl: "post_login_checks env w = (r1, w1)"
    by (cases "post_login_checks env w")
  from post_login_checks_success[of env w] pl
  have p: "success w1 = success w"
    "r1 = Inr True \<longleftrightarrow>
       step env RedirectWait = Inr () \<and>
       (case content_after_login env of Inr page_content \<Rightarrow> True | Inl e \<Rightarrow> False) \<and>
       captcha_passed env"
    by simp_all
  define handler :: "bool prog" where "handler = pseq (say Login_process_error)
            (pseq (await (step env ScreenshotLoginError))
            (pseq (browser_close env CloseLoginError) pcontinue))"
  have h1: "success (snd (handler w2)) = success w2" for w2
    unfolding handler_def
    by (cases "step env ScreenshotLoginError"; cases "browser w2";
        cases "step env CloseLoginError") (simp_all add: browser_close_def prog_defs)
  have h2: "fst (handler w2) \<noteq> Inr b" for w2 b
    unfolding handler_def
    by (cases "step env ScreenshotLoginError"; cases "browser w2";
        cases "step env CloseLoginError") (simp_all add: browser_close_def prog_defs)
  have gl: "google_login env w =
     (case step env PreClickDelay of
        Inl e \<Rightarrow> handler w
      | Inr u \<Rightarrow>
         (case step env ExpectPopup of
            Inl e \<Rightarrow> handler w
          | Inr u \<Rightarrow>
             (case handle_google_login_process (login env) of
                Inl e \<Rightarrow> handler w
              | Inr login_popup_success \<Rightarrow>
                  if login_popup_success
                  then (case post_login_checks env w of
                          (Inl (Raise e), w1) \<Rightarrow> handler w1
                        | (Inl Continue, w1) \<Rightarrow> (Inl Continue, w1)
                        | (Inr b, w1) \<Rightarrow> (Inr b, w1))
                  else (Inr False, w))))"
    by (simp add: google_login_def handler_def ptry_def pbind_def pseq_def await_def pret_def
        split: sum.splits prod.splits signal.splits)
  show "success (snd (google_login env w)) = success w"
  proof (cases "step env PreClickDelay = Inr () \<and> step env ExpectPopup = Inr () \<and>
                handle_google_login_process (login env) = Inr True")
    case True
    then have "google_login env w =
        (case r1 of Inl (Raise e) \<Rightarrow> handler w1 | Inl Continue \<Rightarrow> (Inl Continue, w1)
                  | Inr b \<Rightarrow> (Inr b, w1))"
      unfolding gl pl by (simp split: sum.splits signal.splits)
    with p(1) h1[of w1] show ?thesis
      by (simp split: sum.splits signal.splits)
  next
    case False
    then have "google_login env w = handler w \<or> google_login env w = (Inr False, w)"
      unfolding gl by (auto split: sum.splits)
    with h1[of w] show ?thesis by auto
  qed
  show "fst (google_login env w) = Inr True \<longleftrightarrow>
     step env PreClickDelay = Inr () \<and> step env ExpectPopup = Inr () \<and>
     handle_google_login_process (login env) = Inr True \<and>
     step env RedirectWait = Inr () \<and>
     (case content_after_login env of Inr page_content \<Rightarrow> True | Inl e \<Rightarrow> False) \<and>
     captcha_passed env"
  proof (cases "step env PreClickDelay = Inr () \<and> step env ExpectPopup = Inr () \<and>
                handle_google_login_process (login env) = Inr True")
    case True
    then have "google_login env w =
        (case r1 of Inl (Raise e) \<Rightarrow> handler w1 | Inl Continue \<Rightarrow> (Inl Continue, w1)
                  | Inr b \<Rightarrow> (Inr b, w1))"
      unfolding gl pl by (simp split: sum.splits signal.splits)
    then have "fst (google_login env w) = Inr True \<longleftrightarrow> r1 = Inr True"
      using h2[of w1 True] by (simp split: sum.splits signal.splits)
    with p(2) True show ?thesis by simp
  next
    case False
    then have "google_login env w = handler w \<or> google_login env w = (Inr False, w)"
      unfolding gl by (auto split: sum.splits)
    with h2[of w True] have "fst (google_login env w) \<noteq> Inr True" by auto
    with False show ?thesis by blast
  qed
qed

lemma attempt_end_success:
  "success (snd (attempt_end env b w)) = (success w \<or> b)"
  by (cases "step env SaveSuccessInfo"; cases "step env KeepOpenWait"; cases "browser w";
      cases "step env CloseEnd"; cases b)
     (simp_all add: attempt_end_def browser_close_def prog_defs)


lemma login_and_end_success:
  "success (snd (pbind (google_login env) (attempt_end env) w)) \<longleftrightarrow>
     success w \<or>
     (step env PreClickDelay = Inr () \<and> step env ExpectPopup = Inr () \<and>
      handle_google_login_process (login env) = Inr True \<and>
      step env RedirectWait = Inr () \<and>
      (case content_after_login env of Inr page_content \<Rightarrow> True | Inl e \<Rightarrow> False) \<and>
      captcha_passed env)"
proof -
  obtain r1 w1 where gl: "google_login env w = (r1, w1)" by (cases "google_login env w")
  from google_login_success[of env w] gl
  have g: "success w1 = success w"
    "r1 = Inr True \<longleftrightarrow>
     step env PreClickDelay = Inr () \<and> step env ExpectPopup = Inr () \<and>
     handle_google_login_process (login env) = Inr True \<and>
     step env RedirectWait = Inr () \<and>
     (case content_after_login env of Inr page_content \<Rightarrow> True | Inl e \<Rightarrow> False) \<and>
     captcha_passed env"
    by simp_all
  have "success (snd (pbind (google_login env) (attempt_end env) w)) \<longleftrightarrow>
          success w \<or> r1 = Inr True"
  proof (cases r1)
    case (Inl s)
    with gl g(1) show ?thesis by (simp add: pbind_def)
  next
    case (Inr b)
    with gl g(1) attempt_end_success[of env b w1] show ?thesis
      by (cases b) (simp_all add: pbind_def)
  qed
  with g(2) show ?thesis by simp
qed

lemma attempt_try_success:
  "success (snd (attempt_try env n w)) \<longleftrightarrow> success w \<or> (login_done env \<and> captcha_passed env)"
proof -
  let ?w1 = "w\<lparr>sessions := sessions w @ [Opened n], browser := Some n\<rparr>"
  note rest = login_and_end_success[of env ?w1]
  obtain blocked where bl: "is_shopee_blocking (blocking_page env) = Inr blocked"
    using is_shopee_blocking_returns[of "blocking_page env"] by blast
  show ?thesis
    using rest bl
    by (cases "launch_persistent_context env"; cases "page_setup env";
        cases "step env Goto"; cases "step env StabilizeWait"; cases blocked;
        cases "step env HumanDelay";
        cases "first_field (locator_count env) google_button_selectors";
        cases "step env CloseBlocked"; cases "step env CloseNoButton")
       (auto simp: login_done_def attempt_try_def launch_browser_with_proxy_def
         language_selection_passes browser_close_def
         pret_def pcontinue_def pseq_def await_def say_def record_event_def assign_browser_def
         pbind_def[of "await _"] pbind_def[of "say _"] pbind_def[of "record_event _"]
         pbind_def[of "assign_browser _"] pbind_def[of "language_selection _"]
         pbind_def[of "browser_close _ _"] pbind_def[of "\<lambda>w. _ w"]
         split: option.splits)
qed

lemma attempt_success:
  "success (snd (attempt env n w)) \<longleftrightarrow> success w \<or> (login_done env \<and> captcha_passed env)"
proof -
  obtain r1 w1 where t: "attempt_try env n w = (r1, w1)" by (cases "attempt_try env n w")
  from attempt_try_success[of env n w] t
  have s: "success w1 \<longleftrightarrow> success w \<or> (login_done env \<and> captcha_passed env)" by simp
  have "success (snd (attempt env n w)) = success w1"
    using t
    by (cases r1; cases "step env ScreenshotTimeout"; cases "step env ScreenshotError";
        cases "browser w1"; cases "step env CloseTimeout"; cases "step env CloseError")
       (auto simp: attempt_def browser_close_def prog_defs split: signal.splits exc.splits)
  with s show ?thesis by simp
qed

lemma login_done_facts:
  "login_done env_no_captcha" "login_done env_captcha_solved" "captcha_passed env_captcha_solved"
  using env_no_captcha_facts(1,2,4,5,6,7,9,10,11) env_no_captcha_facts(3)
    env_captcha_solved_facts(1,2,4,5,6,7,8,9) env_captcha_solved_facts(3)
  by (simp_all add: login_done_def captcha_passed_def)

text \<open>Claim C1, as the code has it. An attempt sets \<open>success\<close> exactly when it gets through
  the login (the page is not blocked, the sign-in button is found, the login returns
  \<open>True\<close>) and a CAPTCHA element is then on the page, the wait returns, and the content
  read after the wait shows no CAPTCHA error text, no app-only error text and is not
  nearly blank. In particular, an attempt that gets through the login and finds no
  CAPTCHA element, no app-only error text and no nearly blank page is not a success:
  \<open>main\<close> prints its login-failed line, closes the session and leaves \<open>success\<close> as it was,
  so the loop goes on. And an attempt that meets the condition prints the solved and
  completed lines, sets \<open>success\<close> and closes the session.\<close>

theorem attempt_success_needs_captcha:
  "(success (snd (attempt env n w)) \<longleftrightarrow> success w \<or> (login_done env \<and> captcha_passed env)) \<and>
   (login_done env \<and> content_after_login env = Inr page_content \<and>
    \<not> captcha_found (locator_count env) captcha_selectors \<and>
    \<not> text_found app_only_error_texts page_content \<and>
    \<not> length (strip page_content) < 200 \<and>
    step env CloseEnd = Inr ()
    \<longrightarrow> attempt env n w =
          (Inr (), w\<lparr>sessions := sessions w @ [Opened n, Closed n],
                      printed := printed w @ [Login_failed],
                      browser := Some n\<rparr>)) \<and>
   (login_done env \<and> captcha_passed env \<and>
    step env KeepOpenWait = Inr () \<and> step env CloseEnd = Inr ()
    \<longrightarrow> attempt env n w =
          (Inr (), w\<lparr>sessions := sessions w @ [Opened n, Closed n],
                      printed := printed w @ [Captcha_solved, Login_completed],
                      browser := Some n, success := True\<rparr>))"
proof (intro conjI impI)
  show "success (snd (attempt env n w)) \<longleftrightarrow> success w \<or> (login_done env \<and> captcha_passed env)"
    by (rule attempt_success)
next
  assume h: "login_done env \<and> content_after_login env = Inr page_content \<and>
    \<not> captcha_found (locator_count env) captcha_selectors \<and>
    \<not> text_found app_only_error_texts page_content \<and>
    \<not> length (strip page_content) < 200 \<and>
    step env CloseEnd = Inr ()"
  then obtain button where
    "first_field (locator_count env) google_button_selectors = Inr (Some button)"
    by (auto simp: login_done_def split: sum.splits option.splits)
  note b = this
  from h have f: "launch_persistent_context env = Inr ()" "page_setup env = Inr ()"
    "step env Goto = Inr ()" "step env StabilizeWait = Inr ()"
    "is_shopee_blocking (blocking_page env) = Inr False" "step env HumanDelay = Inr ()"
    "step env PreClickDelay = Inr ()" "step env ExpectPopup = Inr ()"
    "handle_google_login_process (login env) = Inr True" "step env RedirectWait = Inr ()"
    "content_after_login env = Inr page_content"
    "\<not> captcha_found (locator_count env) captcha_selectors"
    "\<not> text_found app_only_error_texts page_content"
    "\<not> length (strip page_content) < 200" "step env CloseEnd = Inr ()"
    by (simp_all add: login_done_def)
  show "attempt env n w =
          (Inr (), w\<lparr>sessions := sessions w @ [Opened n, Closed n],
                      printed := printed w @ [Login_failed],
                      browser := Some n\<rparr>)"
    by (rule attempt_without_marker[OF f(1-6) b f(7-15)])
next
  assume h: "login_done env \<and> captcha_passed env \<and>
    step env KeepOpenWait = Inr () \<and> step env CloseEnd = Inr ()"
  then obtain button page_content content2 where
    "first_field (locator_count env) google_button_selectors = Inr (Some button)"
    "content_after_login env = Inr page_content"
    "content_after_captcha env = Inr content2"
    by (auto simp: login_done_def captcha_passed_def split: sum.splits option.splits)
  note o = this
  from h o(2,3) have f: "launch_persistent_context env = Inr ()" "page_setup env = Inr ()"
    "step env Goto = Inr ()" "step env StabilizeWait = Inr ()"
    "is_shopee_blocking (blocking_page env) = Inr False" "step env HumanDelay = Inr ()"
    "step env PreClickDelay = Inr ()" "step env ExpectPopup = Inr ()"
    "handle_google_login_process (login env) = Inr True" "step env RedirectWait = Inr ()"
    "captcha_found (locator_count env) captcha_selectors"
    "step env WriteCaptchaSuccess = Inr ()" "step env CaptchaWait = Inr ()"
    "\<not> text_found captcha_error_texts content2" "step env ProductPageWait = Inr ()"
    "\<not> text_found app_only_error_texts content2" "\<not> length (strip content2) < 200"
    "step env KeepOpenWait = Inr ()" "step env CloseEnd = Inr ()"
    by (simp_all add: login_done_def captcha_passed_def)
  show "attempt env n w =
          (Inr (), w\<lparr>sessions := sessions w @ [Opened n, Closed n],
                      printed := printed w @ [Captcha_solved, Login_completed],
                      browser := Some n, success := True\<rparr>)"
    by (rule attempt_with_marker_solved[OF f(1-6) o(1) f(7-10) o(2) f(11-13) o(3) f(14-19)])
qed

theorem attempt_success_needs_captcha_witness:
  "login_done env_no_captcha \<and> login_done env_captcha_solved \<and>
   captcha_passed env_captcha_solved \<and>
   attempt env_no_captcha 4 initial_world =
     (Inr (), \<lparr>sessions = [Opened 4, Closed 4], printed = [Login_failed],
               browser = Some 4, success = False\<rparr>) \<and>
   attempt env_captcha_solved 4 initial_world =
     (Inr (), \<lparr>sessions = [Opened 4, Closed 4], printed = [Captcha_solved, Login_completed],
               browser = Some 4, success = True\<rparr>)"
  using
    attempt_success_needs_captcha [of env_no_captcha 4 initial_world "replicate 300 120"]
    attempt_success_needs_captcha [of env_captcha_solved 4 initial_world "replicate 300 120"]
    login_done_facts env_no_captcha_facts(3,7,8,9,11) env_captcha_solved_facts(3)
  by (simp add: initial_world_def)

text \<open>The claim as stated fails: in this attempt the login returns \<open>True\<close>, there is no
  CAPTCHA element, no app-only error text and 300 characters of content, and the
  attempt ends with \<open>success\<close> still \<open>False\<close> and the login-failed line printed.\<close>

theorem attempt_no_captcha_counterexample:
  "handle_google_login_process (login env_no_captcha) = Inr True \<and>
   captcha_found (locator_count env_no_captcha) captcha_selectors = False \<and>
   content_after_login env_no_captcha = Inr (replicate 300 120) \<and>
   text_found app_only_error_texts (replicate 300 120) = False \<and>
   length (strip (replicate 300 120)) = 300 \<and>
   attempt env_no_captcha 1 initial_world =
     (Inr (), \<lparr>sessions = [Opened 1, Closed 1], printed = [Login_failed],
               browser = Some 1, success = False\<rparr>)"
proof -
  have "length (strip (replicate 300 120)) = 300"
    by (simp add: strip_def py_isspace_def)
  moreover have "attempt env_no_captcha 1 initial_world =
     (Inr (), \<lparr>sessions = [Opened 1, Closed 1], printed = [Login_failed],
               browser = Some 1, success = False\<rparr>)"
    using attempt_without_marker [OF env_no_captcha_facts(1,2,3,3,4,3,5,3,3,6,3,7,8,9,11,3),
        where n = 1 and w = initial_world]
    by (simp add: initial_world_def)
  ultimately show ?thesis
    using env_no_captcha_facts(6,7,8,9) by simp
qed

lemma env_setup_fails_facts:
  "launch_persistent_context env_setup_fails = Inr ()"
  "page_setup env_setup_fails = Inl (PlaywrightTimeoutError (str ''Timeout 30000ms exceeded.''))"
  "step env_setup_fails s = Inr ()"
  by (simp_all add: env_setup_fails_def env_no_captcha_def)

lemma two_proxies_rotator: "proxies (ProxyRotator_init two_proxies) \<noteq> []"
  by (simp add: ProxyRotator_init_def two_proxies_def)

lemma main_setup_fails:
  "main two_proxies (Inr ()) envs_setup_fails rnd_zero =
     \<lparr>report = Critical_error (UnboundLocalError
        (str ''cannot access local variable browser where it is not associated with a value'')),
      attempts = 1,
      final_world = \<lparr>sessions = [Opened 1], printed = [Timeout_occurred],
                      browser = None, success = False\<rparr>\<rparr>"
proof -
  have s0: "\<not> success initial_world" by (simp add: initial_world_def)
  from attempt_loop_unfold[OF s0 _ two_proxies_rotator, of 0 envs_setup_fails rnd_zero]
  obtain p rot' where
    "attempt_loop envs_setup_fails rnd_zero 0 (ProxyRotator_init two_proxies) initial_world =
       (case attempt (envs_setup_fails (0 + 1) p) (0 + 1) initial_world of
          (Inl (Raise e), w') \<Rightarrow> (Some e, 0 + 1, rot', w')
        | (Inl Continue, w') \<Rightarrow> attempt_loop envs_setup_fails rnd_zero (0 + 1) rot' w'
        | (Inr u, w') \<Rightarrow> attempt_loop envs_setup_fails rnd_zero (0 + 1) rot' w')"
    by (auto simp: max_attempts_before_break_def)
  then have "attempt_loop envs_setup_fails rnd_zero 0 (ProxyRotator_init two_proxies) initial_world =
       (Some (UnboundLocalError
          (str ''cannot access local variable browser where it is not associated with a value'')),
        1, rot',
        \<lparr>sessions = [Opened 1], printed = [Timeout_occurred], browser = None, success = False\<rparr>)"
    by (simp add: envs_setup_fails_def initial_world_def
        attempt_setup_timeout[OF env_setup_fails_facts(1,2,3)])
  from main_after_loop[OF _ this] show ?thesis by (simp add: two_proxies_def)
qed

lemma attempt_loop_next:
  assumes "\<not> success w" and "a < max_attempts_before_break" and "proxies rot \<noteq> []"
    and "\<And>p. attempt (envs (a + 1) p) (a + 1) w = (r, w')"
    and "r = Inl Continue \<or> r = Inr ()"
  shows "\<exists>rot'. proxies rot' \<noteq> [] \<and>
           attempt_loop envs rnd a rot w = attempt_loop envs rnd (a + 1) rot' w'"
proof -
  from attempt_loop_unfold[OF assms(1-3), of envs rnd]
  obtain p rot' where u: "proxies rot' = proxies rot"
    "attempt_loop envs rnd a rot w =
       (case attempt (envs (a + 1) p) (a + 1) w of
          (Inl (Raise e), w') \<Rightarrow> (Some e, a + 1, rot', w')
        | (Inl Continue, w') \<Rightarrow> attempt_loop envs rnd (a + 1) rot' w'
        | (Inr u, w') \<Rightarrow> attempt_loop envs rnd (a + 1) rot' w')"
    by blast
  from u(2) assms(4)[of p] assms(5)
  have "attempt_loop envs rnd a rot w = attempt_loop envs rnd (a + 1) rot' w'"
    by auto
  moreover have "proxies rot' \<noteq> []" using u(1) assms(3) by simp
  ultimately show ?thesis by blast
qed

lemma main_setup_fails_later:
  "main two_proxies (Inr ()) envs_setup_fails_later rnd_zero =
     \<lparr>report = Successfully_accessed 3,
      attempts = 3,
      final_world = \<lparr>sessions = [Opened 1, Closed 1, Opened 2, Closed 1, Opened 3, Closed 3],
                      printed = [Shopee_is_blocking, Timeout_occurred, Captcha_solved,
                                 Login_completed],
                      browser = Some 3, success = True\<rparr>\<rparr>"
proof -
  let ?envs = envs_setup_fails_later
  let ?w1 = "\<lparr>sessions = [Opened 1, Closed 1], printed = [Shopee_is_blocking],
              browser = Some 1, success = False\<rparr>"
  let ?w2 = "\<lparr>sessions = [Opened 1, Closed 1, Opened 2, Closed 1],
              printed = [Shopee_is_blocking, Timeout_occurred],
              browser = Some 1, success = False\<rparr>"
  let ?w3 = "\<lparr>sessions = [Opened 1, Closed 1, Opened 2, Closed 1, Opened 3, Closed 3],
              printed = [Shopee_is_blocking, Timeout_occurred, Captcha_solved, Login_completed],
              browser = Some 3, success = True\<rparr>"
  have a1: "attempt (?envs (0 + 1) p) (0 + 1) initial_world = (Inl Continue, ?w1)" for p
    by (simp add: envs_setup_fails_later_def attempt_blocked[OF env_blocked_is_blocked]
        initial_world_def)
  have a2: "attempt (?envs (1 + 1) p) (1 + 1) ?w1 = (Inr (), ?w2)" for p
    by (simp add: envs_setup_fails_later_def
        attempt_setup_timeout[OF env_setup_fails_facts(1,2,3)])
  have a3: "attempt (?envs (2 + 1) p) (2 + 1) ?w2 = (Inr (), ?w3)" for p
    using attempt_with_marker_solved [OF env_captcha_solved_facts(1,2,3,3,4,3,5,3,3,6,3,7,9,3,3,8)
        env_no_captcha_facts(10) env_captcha_solved_facts(3) env_no_captcha_facts(9,11)
        env_captcha_solved_facts(3,3), where n = 3 and w = ?w2]
    by (simp add: envs_setup_fails_later_def)
  have m: "(0::nat) < max_attempts_before_break" "(1::nat) < max_attempts_before_break"
    "(2::nat) < max_attempts_before_break"
    by (simp_all add: max_attempts_before_break_def)
  have s0: "\<not> success initial_world" by (simp add: initial_world_def)
  have "\<exists>rot'. proxies rot' \<noteq> [] \<and>
      attempt_loop ?envs rnd_zero 0 (ProxyRotator_init two_proxies) initial_world
        = attempt_loop ?envs rnd_zero (0 + 1) rot' ?w1"
    by (rule attempt_loop_next[OF s0 m(1) two_proxies_rotator, where r = "Inl Continue"],
        rule a1, simp)
  then obtain rot1 where r1: "proxies rot1 \<noteq> []"
    and l1: "attempt_loop ?envs rnd_zero 0 (ProxyRotator_init two_proxies) initial_world
           = attempt_loop ?envs rnd_zero (0 + 1) rot1 ?w1"
    by blast
  have s1: "\<not> success ?w1" by simp
  have "\<exists>rot'. proxies rot' \<noteq> [] \<and>
      attempt_loop ?envs rnd_zero 1 rot1 ?w1 = attempt_loop ?envs rnd_zero (1 + 1) rot' ?w2"
    by (rule attempt_loop_next[OF s1 m(2) r1, where r = "Inr ()"], rule a2, simp)
  then obtain rot2 where r2: "proxies rot2 \<noteq> []"
    and l2: "attempt_loop ?envs rnd_zero 1 rot1 ?w1 = attempt_loop ?envs rnd_zero (1 + 1) rot2 ?w2"
    by blast
  have s2: "\<not> success ?w2" by simp
  have "\<exists>rot'. proxies rot' \<noteq> [] \<and>
      attempt_loop ?envs rnd_zero 2 rot2 ?w2 = attempt_loop ?envs rnd_zero (2 + 1) rot' ?w3"
    by (rule attempt_loop_next[OF s2 m(3) r2, where r = "Inr ()"], rule a3, simp)
  then obtain rot3 where
    l3: "attempt_loop ?envs rnd_zero 2 rot2 ?w2 = attempt_loop ?envs rnd_zero (2 + 1) rot3 ?w3"
    by blast
  have "attempt_loop ?envs rnd_zero 3 rot3 ?w3 = (None, 3, rot3, ?w3)"
    by (rule attempt_loop_stop) simp
  with l1 l2 l3 have
    "attempt_loop ?envs rnd_zero 0 (ProxyRotator_init two_proxies) initial_world
       = (None, 3, rot3, ?w3)" by (simp add: numeral_2_eq_2 numeral_3_eq_3)
  from main_after_loop[OF _ this] show ?thesis by (simp add: two_proxies_def)
qed

text \<open>Claim C2 fails on the code. When the set-up of the page times out after the browser
  has started, the handler calls \<open>browser.close()\<close> on a variable that does not name the
  new session. In the first attempt the variable is unassigned: the session stays open
  and the \<open>UnboundLocalError\<close> ends \<open>main\<close>. In a later attempt the variable still names
  the session of the attempt before: session 2 is never closed, and sessions 2 and 3
  are open together.\<close>

theorem main_leaks_session:
  "sessions (final_world (main two_proxies (Inr ()) envs_setup_fails rnd_zero)) = [Opened 1] \<and>
   open_sessions (sessions (final_world (main two_proxies (Inr ()) envs_setup_fails rnd_zero)))
     = [1] \<and>
   report (main two_proxies (Inr ()) envs_setup_fails rnd_zero) =
     Critical_error (UnboundLocalError
        (str ''cannot access local variable browser where it is not associated with a value'')) \<and>
   sessions (final_world (main two_proxies (Inr ()) envs_setup_fails_later rnd_zero))
     = [Opened 1, Closed 1, Opened 2, Closed 1, Opened 3, Closed 3] \<and>
   open_sessions
     (take 5 (sessions (final_world (main two_proxies (Inr ()) envs_setup_fails_later rnd_zero))))
     = [2, 3] \<and>
   open_sessions (sessions (final_world (main two_proxies (Inr ()) envs_setup_fails_later rnd_zero)))
     = [2]"
  by (simp add: main_setup_fails main_setup_fails_later open_sessions_def)

section \<open>api.py: the responses of the endpoint\<close>

lemma scrape_try_table:
  "(api_step env ApiGoto = Inl c \<longrightarrow> scrape_try env = Inl c) \<and>
   (api_step env ApiGoto = Inr () \<and> api_step env ApiStabilizeWait = Inl c
      \<longrightarrow> scrape_try env = Inl c) \<and>
   (api_step env ApiGoto = Inr () \<and> api_step env ApiStabilizeWait = Inr () \<and>
    captcha_found (api_locator_count env) captcha_selectors \<and>
    api_step env ApiCaptchaWait = Inl c
      \<longrightarrow> scrape_try env = Inl c) \<and>
   (api_step env ApiGoto = Inr () \<and> api_step env ApiStabilizeWait = Inr () \<and>
    captcha_found (api_locator_count env) captcha_selectors \<and>
    api_step env ApiCaptchaWait = Inr () \<and> api_content env = Inl c
      \<longrightarrow> scrape_try env = Inl c) \<and>
   (api_step env ApiGoto = Inr () \<and> api_step env ApiStabilizeWait = Inr () \<and>
    captcha_found (api_locator_count env) captcha_selectors \<and>
    api_step env ApiCaptchaWait = Inr () \<and> api_content env = Inr page_content \<and>
    text_found captcha_error_texts page_content \<and> api_step env ApiCloseCaptchaError = Inl c
      \<longrightarrow> scrape_try env = Inl c) \<and>
   (api_step env ApiGoto = Inr () \<and> api_step env ApiStabilizeWait = Inr () \<and>
    captcha_found (api_locator_count env) captcha_selectors \<and>
    api_step env ApiCaptchaWait = Inr () \<and> api_content env = Inr page_content \<and>
    text_found captcha_error_texts page_content \<and> api_step env ApiCloseCaptchaError = Inr ()
      \<longrightarrow> scrape_try env = Inr (ScrapingResponse False None
                                   (Some (str ''Captcha failed - received error page'')))) \<and>
   (api_step env ApiGoto = Inr () \<and> api_step env ApiStabilizeWait = Inr () \<and>
    api_captcha_cleared env \<and> api_step env ApiProductPageWait = Inl c
      \<longrightarrow> scrape_try env = Inl c) \<and>
   (api_step env ApiGoto = Inr () \<and> api_step env ApiStabilizeWait = Inr () \<and>
    api_captcha_cleared env \<and> api_step env ApiProductPageWait = Inr () \<and>
    api_step env ApiCloseEnd = Inl c
      \<longrightarrow> scrape_try env = Inl c) \<and>
   (api_step env ApiGoto = Inr () \<and> api_step env ApiStabilizeWait = Inr () \<and>
    api_captcha_cleared env \<and> api_step env ApiProductPageWait = Inr () \<and>
    api_step env ApiCloseEnd = Inr ()
      \<longrightarrow> scrape_try env = Inr (ScrapingResponse True (Some (scrape_product_data env))
                                   (Some (str ''Product data scraped successfully''))))"
  by (auto simp: scrape_try_def api_captcha_cleared_def rseq_def rbind_def split: sum.splits)

lemma scrape_shopee_product_outer:
  "(api_playwright_start env = Inl e
      \<longrightarrow> scrape_shopee_product env = HTTPException 500 (str ''Server error: '' @ exc_text e)) \<and>
   (api_playwright_start env = Inr () \<and> api_launch_browser_with_proxy env = Inl e
      \<longrightarrow> scrape_shopee_product env = HTTPException 500 (str ''Server error: '' @ exc_text e)) \<and>
   (api_playwright_start env = Inr () \<and> api_launch_browser_with_proxy env = Inr () \<and>
    scrape_try env = Inr response
      \<longrightarrow> scrape_shopee_product env = response) \<and>
   (api_playwright_start env = Inr () \<and> api_launch_browser_with_proxy env = Inr () \<and>
    scrape_try env = Inl (PlaywrightTimeoutError t) \<and> api_step env ApiCloseTimeout = Inr ()
      \<longrightarrow> scrape_shopee_product env =
            ScrapingResponse False None
              (Some (str ''Timeout occurred while accessing the product page''))) \<and>
   (api_playwright_start env = Inr () \<and> api_launch_browser_with_proxy env = Inr () \<and>
    scrape_try env = Inl (PlaywrightTimeoutError t) \<and> api_step env ApiCloseTimeout = Inl e
      \<longrightarrow> scrape_shopee_product env = HTTPException 500 (str ''Server error: '' @ exc_text e)) \<and>
   (api_playwright_start env = Inr () \<and> api_launch_browser_with_proxy env = Inr () \<and>
    scrape_try env = Inl c \<and> (\<forall>t. c \<noteq> PlaywrightTimeoutError t) \<and>
    api_step env ApiCloseError = Inr ()
      \<longrightarrow> scrape_shopee_product env =
            ScrapingResponse False None (Some (str ''Error during scraping: '' @ exc_text c))) \<and>
   (api_playwright_start env = Inr () \<and> api_launch_browser_with_proxy env = Inr () \<and>
    scrape_try env = Inl c \<and> (\<forall>t. c \<noteq> PlaywrightTimeoutError t) \<and>
    api_step env ApiCloseError = Inl e
      \<longrightarrow> scrape_shopee_product env = HTTPException 500 (str ''Server error: '' @ exc_text e))"
  by (cases c)
     (simp_all add: scrape_shopee_product_def scrape_except_def rseq_def rbind_def rtry_def)

text \<open>Claim C3, as the code has it. What the caller of the endpoint receives, case by
  case. A failure to start Playwright or to launch the browser, with exception \<open>e\<close>, is an
  HTTP error 500 whose detail is \<open>Server error:\<close> followed by the text of \<open>e\<close>. Otherwise
  the scraping block decides. If it returns, its response is the answer: the success
  response, or the failure response with the fixed CAPTCHA message. If it raises a
  Playwright timeout, the answer is the failure response with the fixed timeout message.
  If it raises any other exception \<open>c\<close>, the answer is the failure response whose message
  is \<open>Error during scraping:\<close> followed by the text of \<open>c\<close> itself. If \<open>browser.close()\<close> in
  one of these two handlers raises \<open>e\<close>, the answer is the HTTP error 500 with the text of
  \<open>e\<close>. The second part says what the scraping block returns or raises: the exception of
  the first call that raises, in the order navigation, wait, CAPTCHA wait, reading the
  content, closing after a CAPTCHA error, wait for the product page, closing at the
  end.\<close>

theorem scrape_shopee_product_forms:
  "((api_playwright_start env = Inl e
       \<longrightarrow> scrape_shopee_product env = HTTPException 500 (str ''Server error: '' @ exc_text e)) \<and>
    (api_playwright_start env = Inr () \<and> api_launch_browser_with_proxy env = Inl e
       \<longrightarrow> scrape_shopee_product env = HTTPException 500 (str ''Server error: '' @ exc_text e)) \<and>
    (api_playwright_start env = Inr () \<and> api_launch_browser_with_proxy env = Inr () \<and>
     scrape_try env = Inr response
       \<longrightarrow> scrape_shopee_product env = response) \<and>
    (api_playwright_start env = Inr () \<and> api_launch_browser_with_proxy env = Inr () \<and>
     scrape_try env = Inl (PlaywrightTimeoutError t) \<and> api_step env ApiCloseTimeout = Inr ()
       \<longrightarrow> scrape_shopee_product env =
             ScrapingResponse False None
               (Some (str ''Timeout occurred while accessing the product page''))) \<and>
    (api_playwright_start env = Inr () \<and> api_launch_browser_with_proxy env = Inr () \<and>
     scrape_try env = Inl (PlaywrightTimeoutError t) \<and> api_step env ApiCloseTimeout = Inl e
       \<longrightarrow> scrape_shopee_product env = HTTPException 500 (str ''Server error: '' @ exc_text e)) \<and>
    (api_playwright_start env = Inr () \<and> api_launch_browser_with_proxy env = Inr () \<and>
     scrape_try env = Inl c \<and> (\<forall>t. c \<noteq> PlaywrightTimeoutError t) \<and>
     api_step env ApiCloseError = Inr ()
       \<longrightarrow> scrape_shopee_product env =
             ScrapingResponse False None (Some (str ''Error during scraping: '' @ exc_text c))) \<and>
    (api_playwright_start env = Inr () \<and> api_launch_browser_with_proxy env = Inr () \<and>
     scrape_try env = Inl c \<and> (\<forall>t. c \<noteq> PlaywrightTimeoutError t) \<and>
     api_step env ApiCloseError = Inl e
       \<longrightarrow> scrape_shopee_product env = HTTPException 500 (str ''Server error: '' @ exc_text e))) \<and>
   ((api_step env ApiGoto = Inl c \<longrightarrow> scrape_try env = Inl c) \<and>
    (api_step env ApiGoto = Inr () \<and> api_step env ApiStabilizeWait = Inl c
       \<longrightarrow> scrape_try env = Inl c) \<and>
    (api_step env ApiGoto = Inr () \<and> api_step env ApiStabilizeWait = Inr () \<and>
     captcha_found (api_locator_count env) captcha_selectors \<and>
     api_step env ApiCaptchaWait = Inl c
       \<longrightarrow> scrape_try env = Inl c) \<and>
    (api_step env ApiGoto = Inr () \<and> api_step env ApiStabilizeWait = Inr () \<and>
     captcha_found (api_locator_count env) captcha_selectors \<and>
     api_step env ApiCaptchaWait = Inr () \<and> api_content env = Inl c
       \<longrightarrow> scrape_try env = Inl c) \<and>
    (api_step env ApiGoto = Inr () \<and> api_step env ApiStabilizeWait = Inr () \<and>
     captcha_found (api_locator_count env) captcha_selectors \<and>
     api_step env ApiCaptchaWait = Inr () \<and> api_content env = Inr page_content \<and>
     text_found captcha_error_texts page_content \<and> api_step env ApiCloseCaptchaError = Inl c
       \<longrightarrow> scrape_try env = Inl c) \<and>
    (api_step env ApiGoto = Inr () \<and> api_step env ApiStabilizeWait = Inr () \<and>
     captcha_found (api_locator_count env) captcha_selectors \<and>
     api_step env ApiCaptchaWait = Inr () \<and> api_content env = Inr page_content \<and>
     text_found captcha_error_texts page_content \<and> api_step env ApiCloseCaptchaError = Inr ()
       \<longrightarrow> scrape_try env = Inr (ScrapingResponse False None
                                    (Some (str ''Captcha failed - received error page'')))) \<and>
    (api_step env ApiGoto = Inr () \<and> api_step env ApiStabilizeWait = Inr () \<and>
     api_captcha_cleared env \<and> api_step env ApiProductPageWait = Inl c
       \<longrightarrow> scrape_try env = Inl c) \<and>
    (api_step env ApiGoto = Inr () \<and> api_step env ApiStabilizeWait = Inr () \<and>
     api_captcha_cleared env \<and> api_step env ApiProductPageWait = Inr () \<and>
     api_step env ApiCloseEnd = Inl c
       \<longrightarrow> scrape_try env = Inl c) \<and>
    (api_step env ApiGoto = Inr () \<and> api_step env ApiStabilizeWait = Inr () \<and>
     api_captcha_cleared env \<and> api_step env ApiProductPageWait = Inr () \<and>
     api_step env ApiCloseEnd = Inr ()
       \<longrightarrow> scrape_try env = Inr (ScrapingResponse True (Some (scrape_product_data env))
                                    (Some (str ''Product data scraped successfully'')))))"
  using scrape_shopee_product_outer [of env e response t c]
    scrape_try_table [of env c page_content]
  by (rule conjI)

theorem scrape_shopee_product_forms_witness:
  "scrape_shopee_product api_goto_fails =
     ScrapingResponse False None
       (Some (str ''Error during scraping: '' @ str ''net::ERR_PROXY_CONNECTION_FAILED'')) \<and>
   scrape_shopee_product api_goto_times_out =
     ScrapingResponse False None
       (Some (str ''Timeout occurred while accessing the product page'')) \<and>
   scrape_shopee_product api_launch_fails =
     HTTPException 500 (str ''Server error: '' @ str ''BrowserType.launch failed'')"
  using
    scrape_shopee_product_forms [of api_goto_fails "Exception (str ''BrowserType.launch failed'')"
      _ _ "Exception (str ''net::ERR_PROXY_CONNECTION_FAILED'')"]
    scrape_shopee_product_forms [of api_goto_times_out _ _ "str ''Timeout 120000ms exceeded.''"
      "PlaywrightTimeoutError (str ''Timeout 120000ms exceeded.'')"]
    scrape_shopee_product_forms [of api_launch_fails "Exception (str ''BrowserType.launch failed'')"]
  by (simp add: api_goto_fails_def api_goto_times_out_def api_launch_fails_def api_ok_def)

text \<open>The claim as stated fails twice: a navigation error comes back with the text of
  the exception in the message, and a browser that cannot be launched comes back as an
  HTTP error, not as a response with \<open>success\<close> false.\<close>

theorem scrape_shopee_product_counterexample:
  "api_step api_goto_fails ApiGoto = Inl (Exception (str ''net::ERR_PROXY_CONNECTION_FAILED'')) \<and>
   scrape_shopee_product api_goto_fails =
     ScrapingResponse False None
       (Some (str ''Error during scraping: net::ERR_PROXY_CONNECTION_FAILED'')) \<and>
   str_in (str ''net::ERR_PROXY_CONNECTION_FAILED'')
          (str ''Error during scraping: net::ERR_PROXY_CONNECTION_FAILED'') \<and>
   scrape_shopee_product api_launch_fails =
     HTTPException 500 (str ''Server error: BrowserType.launch failed'')"
proof -
  have "str_in (str ''net::ERR_PROXY_CONNECTION_FAILED'')
          (str ''Error during scraping: '' @ str ''net::ERR_PROXY_CONNECTION_FAILED'' @ [])"
    by (rule str_in_middle)
  then have "str_in (str ''net::ERR_PROXY_CONNECTION_FAILED'')
          (str ''Error during scraping: net::ERR_PROXY_CONNECTION_FAILED'')"
    by (simp add: str_def)
  then show ?thesis
    by (simp add: scrape_shopee_product_def scrape_try_def scrape_except_def
        api_goto_fails_def api_launch_fails_def api_ok_def rseq_def rbind_def rtry_def str_def)
qed


end
